theory Spec2Isabelle
  imports Complex_Main "HOL-Library.Sublist"
begin

section \<open>Python values used by \<open>financials.py\<close>\<close>

text \<open>
  The script raises Python exceptions in several places (a missing dictionary key, an index
  into an empty sequence, a file that cannot be read, a column inserted twice, a comparison
  of values that are not numbers).  Each one is a value of \<open>error\<close>, and every fallible
  operation returns \<open>error + 'a\<close> with \<open>Inl\<close> for the exception.
\<close>

datatype error =
    KeyError string
  | IndexError
  | ValueError
  | TypeError
  | AttributeError
  | ReadError string

definition bind_err :: "error + 'a \<Rightarrow> ('a \<Rightarrow> error + 'b) \<Rightarrow> error + 'b" where
  "bind_err m f = (case m of Inl e \<Rightarrow> Inl e | Inr x \<Rightarrow> f x)"

subsection \<open>Strings\<close>

text \<open>
  \<open>s.replace(old, new)\<close>: every non-overlapping occurrence of \<open>old\<close>, scanning from the
  left, is replaced by \<open>new\<close>.  With an empty \<open>old\<close> Python puts \<open>new\<close> before every
  character and at the end.
\<close>

function replace :: "string \<Rightarrow> string \<Rightarrow> string \<Rightarrow> string" where
  "replace [] old new = (if old = [] then new else [])"
| "replace (c # cs) old new =
     (if old = [] then new @ concat (map (\<lambda>x. x # new) (c # cs))
      else if prefix old (c # cs) then new @ replace (drop (length old) (c # cs)) old new
      else c # replace cs old new)"
  by pat_completeness auto
termination
  by (relation "measure (\<lambda>(s, old, new). length s)") auto

text \<open>
  \<open>s.split(sep)\<close> for a one-character separator: the pieces between the separators, empty
  pieces included; a string without the separator is its own single piece.
\<close>

fun split :: "string \<Rightarrow> char \<Rightarrow> string list" where
  "split [] sep = [[]]"
| "split (c # cs) sep =
     (if c = sep then [] # split cs sep
      else (case split cs sep of
              [] \<Rightarrow> [[c]]
            | w # ws \<Rightarrow> (c # w) # ws))"

text \<open>\<open>xs[i]\<close> with Python's negative indices; out of range raises \<open>IndexError\<close>.\<close>

definition py_index :: "'a list \<Rightarrow> int \<Rightarrow> error + 'a" where
  "py_index xs i =
     (if 0 \<le> i \<and> i < int (length xs) then Inr (xs ! nat i)
      else if i < 0 \<and> - int (length xs) \<le> i then Inr (xs ! nat (int (length xs) + i))
      else Inl IndexError)"

subsection \<open>Dictionaries\<close>

text \<open>
  A Python \<open>dict\<close> keeps its keys in insertion order, and the script depends on that order
  (\<open>max\<close> over a dictionary returns the first maximal key).  A dictionary is therefore an
  association list; \<open>d[k] = v\<close> overwrites the value in place when \<open>k\<close> is present and
  appends the pair otherwise.
\<close>

type_synonym ('k, 'v) dict = "('k \<times> 'v) list"

fun dict_set :: "('k, 'v) dict \<Rightarrow> 'k \<Rightarrow> 'v \<Rightarrow> ('k, 'v) dict" where
  "dict_set [] k v = [(k, v)]"
| "dict_set ((k', v') # kvs) k v =
     (if k' = k then (k, v) # kvs else (k', v') # dict_set kvs k v)"

definition dict_get :: "('k, 'v) dict \<Rightarrow> 'k \<Rightarrow> 'v option" where
  "dict_get d k = map_of d k"

definition dict_keys :: "('k, 'v) dict \<Rightarrow> 'k list" where
  "dict_keys d = map fst d"

definition dict_item :: "(string, 'v) dict \<Rightarrow> string \<Rightarrow> error + 'v" where
  "dict_item d k = (case dict_get d k of None \<Rightarrow> Inl (KeyError k) | Some v \<Rightarrow> Inr v)"

section \<open>Static configuration\<close>

definition league_files :: "(string, string) dict" where
  "league_files =
    [(''Premier League'', ''england_premier-league-2023-2024_financial_returns.csv''),
     (''Championship'', ''england_championship-2023-2024_financial_returns.csv''),
     (''League Two'', ''england_league-two-2023-2024_financial_returns.csv''),
     (''League One'', ''england_league-one-2023-2024_financial_returns.csv''),
     (''Serie A (Italy)'', ''italy_serie-a-2023-2024_financial_returns.csv''),
     (''La Liga (Spain)'', ''spain_laliga-2023-2024_financial_returns.csv''),
     (''Liga Portugal'', ''portugal_liga-portugal-2023-2024_financial_returns.csv''),
     (''Ligue 1 (France)'', ''france_ligue-1-2023-2024_financial_returns.csv''),
     (''Ekstraklasa (Poland)'', ''poland_ekstraklasa-2023-2024_financial_returns.csv'')]"

definition strategy_colors :: "(string, string) dict" where
  "strategy_colors =
    [(''home_returns_running_total'', ''blue''),
     (''draw_returns_running_total'', ''orange''),
     (''away_returns_running_total'', ''green''),
     (''first_choice_returns_running_total'', ''purple''),
     (''second_choice_returns_running_total'', ''red''),
     (''third_choice_returns_running_total'', ''brown''),
     (''random_choice_1_running_balance'', ''magenta'')]"

text \<open>The descriptions are kept in ASCII: the pound sign of the source is written \<open>GBP\<close>.\<close>

definition label_dict :: "(string, string) dict" where
  "label_dict =
    [(''home_returns_running_total'', ''GBP10 bet on every home win''),
     (''draw_returns_running_total'', ''GBP10 bet on every draw''),
     (''away_returns_running_total'', ''GBP10 bet on every away win''),
     (''first_choice_returns_running_total'', ''GBP10 on the favourite (lowest odds)''),
     (''second_choice_returns_running_total'', ''GBP10 on second favourite''),
     (''third_choice_returns_running_total'', ''GBP10 on Le Underdog (highest odds)''),
     (''random_choice_1_running_balance'', ''GBP10 random pick simulation'')]"

definition column_name_map :: "(string, string) dict" where
  "column_name_map =
    [(''home_returns_total'', ''GBP10 bet on every home win''),
     (''draw_returns_total'', ''GBP10 bet on every draw''),
     (''away_returns_total'', ''GBP10 bet on every away win''),
     (''first_choice_returns_total'', ''GBP10 on the favourite (lowest odds)''),
     (''second_choice_returns_total'', ''GBP10 on second favourite''),
     (''third_choice_returns_total'', ''GBP10 on Le Underdog (highest odds)''),
     (''random_choice_1_total'', ''GBP10 random pick simulation'')]"

section \<open>Season derivation\<close>

text \<open>
  Line 81:
  \<^verbatim>\<open>season = file_path.split('-')[-2] + '-' + file_path.split('-')[-1].replace('_financial_returns.csv', '')\<close>
\<close>

definition derive_season :: "string \<Rightarrow> error + string" where
  "derive_season file_path =
     bind_err (py_index (split file_path CHR ''-'') (- 2)) (\<lambda>a.
     bind_err (py_index (split file_path CHR ''-'') (- 1)) (\<lambda>b.
       Inr (a @ ''-'' @ replace b ''_financial_returns.csv'' '''')))"

section \<open>Data frames\<close>

text \<open>
  A pandas \<open>DataFrame\<close> is its column labels and its rows, in CSV order.  A cell is a
  number, the float not-a-number value that \<open>read_csv\<close> puts where the file has an empty
  cell, or a string.  Numbers are real numbers: the rounding of \<open>float64\<close> is outside
  this model, its not-a-number value is \<open>NaN\<close>.
\<close>

datatype cell = Num real | NaN | Str string

record dataframe =
  columns :: "string list"
  rows :: "cell list list"

fun index_of :: "'a list \<Rightarrow> 'a \<Rightarrow> nat option" where
  "index_of [] x = None"
| "index_of (y # ys) x =
     (if y = x then Some 0 else map_option Suc (index_of ys x))"

fun nth_opt :: "'a list \<Rightarrow> nat \<Rightarrow> 'a option" where
  "nth_opt [] n = None"
| "nth_opt (x # xs) 0 = Some x"
| "nth_opt (x # xs) (Suc n) = nth_opt xs n"

text \<open>
  \<open>row[col]\<close>: the cell of a row under a column label.  A missing label raises
  \<open>KeyError\<close>.  pandas frames are rectangular; a row shorter than the header cannot come
  out of \<open>read_csv\<close> and is reported as \<open>ValueError\<close>.
\<close>

definition row_cell :: "dataframe \<Rightarrow> cell list \<Rightarrow> string \<Rightarrow> error + cell" where
  "row_cell df r col =
     (case index_of (columns df) col of
        None \<Rightarrow> Inl (KeyError col)
      | Some j \<Rightarrow> (case nth_opt r j of None \<Rightarrow> Inl ValueError | Some c \<Rightarrow> Inr c))"

text \<open>\<open>df[col]\<close>: the column as a sequence of cells, or \<open>KeyError\<close>.\<close>

fun collect :: "(error + 'a) list \<Rightarrow> error + 'a list" where
  "collect [] = Inr []"
| "collect (m # ms) =
     (case m of
        Inl e \<Rightarrow> Inl e
      | Inr x \<Rightarrow> (case collect ms of Inl e \<Rightarrow> Inl e | Inr xs \<Rightarrow> Inr (x # xs)))"

definition get_column :: "dataframe \<Rightarrow> string \<Rightarrow> error + cell list" where
  "get_column df col =
     (case index_of (columns df) col of
        None \<Rightarrow> Inl (KeyError col)
      | Some j \<Rightarrow> collect (map (\<lambda>r. row_cell df r col) (rows df)))"

text \<open>
  Python's comparisons of two cell values.  Numbers compare by value; every ordering
  comparison with not-a-number is \<open>False\<close>; strings compare by code point, which for
  UTF-8 bytes is the order of the bytes; a string against a float raises \<open>TypeError\<close>.
\<close>

fun str_lt :: "string \<Rightarrow> string \<Rightarrow> bool" where
  "str_lt [] [] = False"
| "str_lt [] (y # ys) = True"
| "str_lt (x # xs) [] = False"
| "str_lt (x # xs) (y # ys) =
     (if x = y then str_lt xs ys else (of_char x :: nat) < of_char y)"

fun py_lt :: "cell \<Rightarrow> cell \<Rightarrow> error + bool" where
  "py_lt (Num x) (Num y) = Inr (x < y)"
| "py_lt (Num x) NaN = Inr False"
| "py_lt NaN (Num y) = Inr False"
| "py_lt NaN NaN = Inr False"
| "py_lt (Str s) (Str t) = Inr (str_lt s t)"
| "py_lt (Str s) (Num y) = Inl TypeError"
| "py_lt (Str s) NaN = Inl TypeError"
| "py_lt (Num x) (Str t) = Inl TypeError"
| "py_lt NaN (Str t) = Inl TypeError"

definition py_gt :: "cell \<Rightarrow> cell \<Rightarrow> error + bool" where
  "py_gt a b = py_lt b a"

fun py_ge :: "cell \<Rightarrow> cell \<Rightarrow> error + bool" where
  "py_ge (Num x) (Num y) = Inr (y \<le> x)"
| "py_ge (Num x) NaN = Inr False"
| "py_ge NaN (Num y) = Inr False"
| "py_ge NaN NaN = Inr False"
| "py_ge (Str s) (Str t) = Inr (\<not> str_lt s t)"
| "py_ge (Str s) (Num y) = Inl TypeError"
| "py_ge (Str s) NaN = Inl TypeError"
| "py_ge (Num x) (Str t) = Inl TypeError"
| "py_ge NaN (Str t) = Inl TypeError"

text \<open>
  \<open>df.insert(loc, name, value)\<close> with a scalar value: the new column holds the value in
  every row.  pandas refuses a label that is already a column (\<open>ValueError\<close>) and a
  position beyond the last column (\<open>IndexError\<close>).
\<close>

definition insert_col :: "dataframe \<Rightarrow> nat \<Rightarrow> string \<Rightarrow> cell \<Rightarrow> error + dataframe" where
  "insert_col df loc name v =
     (if name \<in> set (columns df) then Inl ValueError
      else if length (columns df) < loc then Inl IndexError
      else Inr \<lparr>columns = take loc (columns df) @ name # drop loc (columns df),
                rows = map (\<lambda>r. take loc r @ v # drop loc r) (rows df)\<rparr>)"

section \<open>The session store and the Load Data action\<close>

text \<open>
  \<open>st.session_state\<close> is a dictionary from keys \<open>f"{league}_df"\<close> to data frames.
  \<open>pd.read_csv\<close> reads the file system, which is a parameter \<open>fs\<close> of the model: for
  each path, the frame read or the exception raised.
\<close>

type_synonym session_state = "(string, dataframe) dict"
type_synonym file_system = "string \<Rightarrow> error + dataframe"

definition key_name :: "string \<Rightarrow> string" where
  "key_name league = league @ ''_df''"

datatype message = Warning string | Info string | Success string

text \<open>Lines 78 to 83: the body of the loop up to the store.\<close>

definition load_league :: "file_system \<Rightarrow> string \<Rightarrow> error + dataframe" where
  "load_league fs league =
     bind_err (dict_item league_files league) (\<lambda>file_path.
     bind_err (fs file_path) (\<lambda>df.
     bind_err (derive_season file_path) (\<lambda>season.
     bind_err (insert_col df 0 ''league_name'' (Str league)) (\<lambda>df1.
       insert_col df1 1 ''season'' (Str season)))))"

text \<open>
  Lines 77 to 85.  An exception ends the loop; what was stored for the leagues before it
  stays stored.
\<close>

fun load_loop :: "file_system \<Rightarrow> session_state \<Rightarrow> string list \<Rightarrow> session_state \<times> error option" where
  "load_loop fs st [] = (st, None)"
| "load_loop fs st (league # rest) =
     (case load_league fs league of
        Inl e \<Rightarrow> (st, Some e)
      | Inr df \<Rightarrow> load_loop fs (dict_set st (key_name league) df) rest)"

record load_result =
  store :: session_state
  messages :: "message list"
  raised :: "error option"

text \<open>Lines 72 to 87.  The message texts are shortened to their ASCII part.\<close>

definition load_data :: "file_system \<Rightarrow> session_state \<Rightarrow> string list \<Rightarrow> load_result" where
  "load_data fs st selected_leagues =
     (if selected_leagues = [] then
        \<lparr>store = st, messages = [Warning ''Please select at least one league.''], raised = None\<rparr>
      else
        (case load_loop fs st selected_leagues of
           (st', None) \<Rightarrow>
             \<lparr>store = st', messages = [Info ''Scraped with intelligent imagination'', Success ''Data loaded!''],
              raised = None\<rparr>
         | (st', Some e) \<Rightarrow>
             \<lparr>store = st', messages = [Info ''Scraped with intelligent imagination''], raised = Some e\<rparr>))"

text \<open>
  A sequence of Load Data presses in one session, each with the selection made at that
  moment and the files as they are then.
\<close>

fun load_many :: "session_state \<Rightarrow> (file_system \<times> string list) list \<Rightarrow> session_state" where
  "load_many st [] = st"
| "load_many st ((fs, sel) # presses) = load_many (store (load_data fs st sel)) presses"

section \<open>The fixture plots\<close>

text \<open>
  Lines 92 to 132.  One chart per selected league that is in the store: the season label
  read from the first row, the extrema of the seven columns for the two shaded bands, the
  seven series with their colours, and the key below the chart.  A chart stands for all
  that one pass of the loop body renders; an exception ends the action after the charts
  of the leagues before it.
\<close>

record chart =
  chart_league :: string
  chart_season :: cell
  chart_ymax :: cell
  chart_ymin :: cell
  chart_series :: "(string \<times> string \<times> cell list) list"
  chart_key :: "(string \<times> string) list"

text \<open>
  A plotted column holds numbers and not-a-number values; a string in it raises
  \<open>TypeError\<close> when the extrema are taken.
\<close>

definition plotted_cell :: "cell \<Rightarrow> error + cell" where
  "plotted_cell c = (case c of Num x \<Rightarrow> Inr (Num x) | NaN \<Rightarrow> Inr NaN | Str s \<Rightarrow> Inl TypeError)"

definition numeric_column :: "dataframe \<Rightarrow> string \<Rightarrow> error + cell list" where
  "numeric_column df col = bind_err (get_column df col) (\<lambda>xs. collect (map plotted_cell xs))"

text \<open>
  \<open>df[cols].max().max()\<close> and \<open>df[cols].min().min()\<close>: pandas skips not-a-number values,
  and gives not-a-number when nothing else is there.
\<close>

fun numbers_of :: "cell list \<Rightarrow> real list" where
  "numbers_of [] = []"
| "numbers_of (Num x # cs) = x # numbers_of cs"
| "numbers_of (c # cs) = numbers_of cs"

definition largest :: "cell list \<Rightarrow> cell" where
  "largest xs = (case numbers_of xs of [] \<Rightarrow> NaN | x # rest \<Rightarrow> Num (fold max rest x))"

definition smallest :: "cell list \<Rightarrow> cell" where
  "smallest xs = (case numbers_of xs of [] \<Rightarrow> NaN | x # rest \<Rightarrow> Num (fold min rest x))"

definition plot_league :: "string \<Rightarrow> dataframe \<Rightarrow> error + chart" where
  "plot_league league df =
     (let cols_to_plot = dict_keys strategy_colors in
      bind_err (py_index (rows df) 0) (\<lambda>first_row.
      bind_err (row_cell df first_row ''season'') (\<lambda>season.
      bind_err (collect (map (numeric_column df) cols_to_plot)) (\<lambda>series.
      bind_err (collect (map (dict_item strategy_colors) cols_to_plot)) (\<lambda>colors.
      bind_err (collect (map (dict_item label_dict) cols_to_plot)) (\<lambda>descriptions.
        Inr \<lparr>chart_league = league, chart_season = season,
             chart_ymax = largest (concat series), chart_ymin = smallest (concat series),
             chart_series = zip cols_to_plot (zip colors series),
             chart_key = zip colors descriptions\<rparr>))))))"

fun plot_loop :: "session_state \<Rightarrow> string list \<Rightarrow> chart list \<times> error option" where
  "plot_loop st [] = ([], None)"
| "plot_loop st (league # rest) =
     (case dict_get st (key_name league) of
        None \<Rightarrow> plot_loop st rest
      | Some df \<Rightarrow>
          (case plot_league league df of
             Inl e \<Rightarrow> ([], Some e)
           | Inr ch \<Rightarrow> (case plot_loop st rest of (chs, err) \<Rightarrow> (ch # chs, err))))"

section \<open>The best and worst returns\<close>

record best_worst_record =
  league_name :: string
  best_return :: cell
  best_return_column :: string
  worst_return :: cell
  worst_return_column :: string

text \<open>
  \<open>col.replace('_running_total', '_total').replace('_running_balance', '_total')\<close>,
  the key of a strategy column in \<open>final_values\<close>.
\<close>

definition total_name :: "string \<Rightarrow> string" where
  "total_name col = replace (replace col ''_running_total'' ''_total'') ''_running_balance'' ''_total''"

text \<open>\<open>df[col].iloc[-1]\<close>: the cell of the last row, whatever it holds.\<close>

definition final_value :: "dataframe \<Rightarrow> string \<Rightarrow> error + cell" where
  "final_value df col = bind_err (get_column df col) (\<lambda>xs. py_index xs (- 1))"

text \<open>The dictionary comprehension of line 145, one key at a time.\<close>

fun final_values_loop ::
  "dataframe \<Rightarrow> string list \<Rightarrow> (string, cell) dict \<Rightarrow> error + (string, cell) dict" where
  "final_values_loop df [] acc = Inr acc"
| "final_values_loop df (col # cols) acc =
     bind_err (final_value df col) (\<lambda>v.
       final_values_loop df cols (dict_set acc (total_name col) v))"

definition final_values :: "dataframe \<Rightarrow> error + (string, cell) dict" where
  "final_values df = final_values_loop df (dict_keys strategy_colors) []"

text \<open>
  \<open>max(xs, key=f)\<close> and \<open>min(xs, key=f)\<close>: the running best is replaced only by an
  element whose key is strictly greater (smaller), so the first of several equal extrema
  is returned.  The comparison is Python's, so a not-a-number value never replaces the
  running best and is never replaced when it is the running best.  The key function here
  is \<open>dict.get\<close>, which answers \<open>None\<close> for a missing key; comparing \<open>None\<close> raises
  \<open>TypeError\<close>, and an empty sequence raises \<open>ValueError\<close>.
\<close>

fun max_loop :: "('a \<Rightarrow> cell option) \<Rightarrow> 'a \<Rightarrow> 'a list \<Rightarrow> error + 'a" where
  "max_loop key best [] = Inr best"
| "max_loop key best (x # xs) =
     (case (key x, key best) of
        (Some a, Some b) \<Rightarrow>
          bind_err (py_gt a b) (\<lambda>greater. max_loop key (if greater then x else best) xs)
      | _ \<Rightarrow> Inl TypeError)"

fun min_loop :: "('a \<Rightarrow> cell option) \<Rightarrow> 'a \<Rightarrow> 'a list \<Rightarrow> error + 'a" where
  "min_loop key best [] = Inr best"
| "min_loop key best (x # xs) =
     (case (key x, key best) of
        (Some a, Some b) \<Rightarrow>
          bind_err (py_lt a b) (\<lambda>less. min_loop key (if less then x else best) xs)
      | _ \<Rightarrow> Inl TypeError)"

definition py_max :: "'a list \<Rightarrow> ('a \<Rightarrow> cell option) \<Rightarrow> error + 'a" where
  "py_max xs key = (case xs of [] \<Rightarrow> Inl ValueError | x # rest \<Rightarrow> max_loop key x rest)"

definition py_min :: "'a list \<Rightarrow> ('a \<Rightarrow> cell option) \<Rightarrow> error + 'a" where
  "py_min xs key = (case xs of [] \<Rightarrow> Inl ValueError | x # rest \<Rightarrow> min_loop key x rest)"

text \<open>Lines 144 to 155: the record of one loaded league.\<close>

definition summarise_league :: "string \<Rightarrow> dataframe \<Rightarrow> error + best_worst_record" where
  "summarise_league league df =
     bind_err (final_values df) (\<lambda>fv.
     bind_err (py_max (dict_keys fv) (dict_get fv)) (\<lambda>best_col.
     bind_err (py_min (dict_keys fv) (dict_get fv)) (\<lambda>worst_col.
     bind_err (dict_item fv best_col) (\<lambda>best.
     bind_err (dict_item fv worst_col) (\<lambda>worst.
       Inr \<lparr>league_name = league,
            best_return = best, best_return_column = best_col,
            worst_return = worst, worst_return_column = worst_col\<rparr>)))))"

text \<open>Lines 141 to 155.\<close>

fun summary_loop :: "session_state \<Rightarrow> string list \<Rightarrow> error + best_worst_record list" where
  "summary_loop st [] = Inr []"
| "summary_loop st (league # rest) =
     (case dict_get st (key_name league) of
        None \<Rightarrow> summary_loop st rest
      | Some df \<Rightarrow>
          bind_err (summarise_league league df) (\<lambda>r.
          bind_err (summary_loop st rest) (\<lambda>rs. Inr (r # rs))))"

text \<open>
  \<open>pd.DataFrame(best_worst_records)\<close>: the columns are the keys of the records, so a
  frame built from no record has no column at all.
\<close>

definition summary_frame :: "best_worst_record list \<Rightarrow> dataframe" where
  "summary_frame recs =
     \<lparr>columns =
        (if recs = [] then []
         else [''league_name'', ''best_return'', ''best_return_column'',
               ''worst_return'', ''worst_return_column'']),
      rows =
        map (\<lambda>r. [Str (league_name r), best_return r, Str (best_return_column r),
                   worst_return r, Str (worst_return_column r)]) recs\<rparr>"

text \<open>
  \<open>Series.map(column_name_map)\<close> gives the missing marker for a value that is not a key
  (\<open>None\<close> here).  The colour lookup of lines 173 and 198 is
  \<open>strategy_colors.get(x.replace('_total', '_running_total'), 'grey')\<close>.
\<close>

definition description_of :: "cell \<Rightarrow> string option" where
  "description_of c =
     (case c of Str s \<Rightarrow> dict_get column_name_map s | Num x \<Rightarrow> None | NaN \<Rightarrow> None)"

definition bar_color :: "string \<Rightarrow> string" where
  "bar_color x =
     (case dict_get strategy_colors (replace x ''_total'' ''_running_total'') of
        Some color \<Rightarrow> color
      | None \<Rightarrow> ''grey'')"

definition cell_color :: "cell \<Rightarrow> error + string" where
  "cell_color c =
     (case c of
        Str s \<Rightarrow> Inr (bar_color s)
      | Num x \<Rightarrow> Inl AttributeError
      | NaN \<Rightarrow> Inl AttributeError)"

text \<open>
  \<open>f"{x:,.2f}"\<close> of lines 165 and 166 formats a float, not-a-number included, and raises
  \<open>ValueError\<close> on a string.  The digits of the result are floating-point formatting and
  are left out: the formatted cell keeps the value.
\<close>

definition currency :: "cell \<Rightarrow> error + cell" where
  "currency c = (case c of Num x \<Rightarrow> Inr (Num x) | NaN \<Rightarrow> Inr NaN | Str s \<Rightarrow> Inl ValueError)"

record summary_view =
  table :: "(cell \<times> cell \<times> string option \<times> cell \<times> string option) list"
  best_bars :: "(cell \<times> cell \<times> string) list"
  worst_bars :: "(cell \<times> cell \<times> string) list"
  strategy_key :: "(string \<times> string) list"

text \<open>Lines 157 to 219.\<close>

definition render_summary :: "best_worst_record list \<Rightarrow> error + summary_view" where
  "render_summary best_worst_records =
     (let summary_df = summary_frame best_worst_records in
      bind_err (get_column summary_df ''best_return_column'') (\<lambda>best_cols.
      bind_err (get_column summary_df ''worst_return_column'') (\<lambda>worst_cols.
      bind_err (get_column summary_df ''league_name'') (\<lambda>names.
      bind_err (get_column summary_df ''best_return'') (\<lambda>bests.
      bind_err (get_column summary_df ''worst_return'') (\<lambda>worsts.
      bind_err (collect (map currency bests)) (\<lambda>best_shown.
      bind_err (collect (map currency worsts)) (\<lambda>worst_shown.
      bind_err (collect (map cell_color best_cols)) (\<lambda>best_colors.
      bind_err (collect (map cell_color worst_cols)) (\<lambda>worst_colors.
        Inr \<lparr>table =
               zip names (zip best_shown (zip (map description_of best_cols)
                 (zip worst_shown (map description_of worst_cols)))),
             best_bars = zip names (zip bests best_colors),
             worst_bars = zip names (zip worsts worst_colors),
             strategy_key = map (\<lambda>(col, desc). (bar_color col, desc)) column_name_map\<rparr>))))))))))"

definition view_best_worst :: "session_state \<Rightarrow> string list \<Rightarrow> error + summary_view" where
  "view_best_worst st selected_leagues =
     bind_err (summary_loop st selected_leagues) render_summary"

section \<open>Well-formed frames and loaded leagues\<close>

text \<open>
  Every frame that pandas builds is rectangular: each row has one cell per column.
\<close>

definition rectangular :: "dataframe \<Rightarrow> bool" where
  "rectangular df = list_all (\<lambda>r. length r = length (columns df)) (rows df)"

text \<open>The test \<open>key_name in st.session_state\<close> of lines 96 and 143.\<close>

definition loaded :: "session_state \<Rightarrow> string \<Rightarrow> bool" where
  "loaded st league = (key_name league \<in> set (dict_keys st))"

text \<open>
  A frame as \<open>read_csv\<close> returns it for a file with the seven strategy columns and two
  fixtures, the second with the given running totals.
\<close>

definition two_fixtures :: "real list \<Rightarrow> dataframe" where
  "two_fixtures finals =
     \<lparr>columns = dict_keys strategy_colors,
      rows = [map Num [1, 2, 3, 4, 5, 6, 7], map Num finals]\<rparr>"

text \<open>The same with any cells in the last row, an empty cell of the file among them.\<close>

definition fixtures_ending :: "cell list \<Rightarrow> dataframe" where
  "fixtures_ending last_row =
     \<lparr>columns = dict_keys strategy_colors,
      rows = [map Num [1, 2, 3, 4, 5, 6, 7], last_row]\<rparr>"

text \<open>A file system in which every league file holds such a frame.\<close>

definition files_with :: "real list \<Rightarrow> file_system" where
  "files_with finals file_path = Inr (two_fixtures finals)"

section \<open>Properties of the string and dictionary operations\<close>
lemma split_not_Nil: "split s sep \<noteq> []"
  by (induction s) (auto split: list.splits)

lemma split_no_sep: "sep \<notin> set s \<Longrightarrow> split s sep = [s]"
  by (induction s) auto

lemma split_append_sep: "split (p @ sep # r) sep = split p sep @ split r sep"
  by (induction p) (auto split: list.splits simp: split_not_Nil)

lemma py_index_last: "py_index (xs @ [x, y]) (- 1) = Inr y"
proof -
  have "nat (1 + int (length xs)) = Suc (length xs)" by simp
  then show ?thesis by (simp add: py_index_def nth_append)
qed

lemma py_index_last2: "py_index (xs @ [x, y]) (- 2) = Inr x"
  by (simp add: py_index_def nth_append)

lemma replace_strip_suffix:
  "CHR ''_'' \<notin> set b \<Longrightarrow> replace (b @ ''_financial_returns.csv'') ''_financial_returns.csv'' [] = b"
  by (induction b) auto

lemma derive_season_shape:
  assumes "CHR ''-'' \<notin> set a" "CHR ''-'' \<notin> set b" "CHR ''_'' \<notin> set b"
  shows "derive_season (pre @ ''-'' @ a @ ''-'' @ b @ ''_financial_returns.csv'') = Inr (a @ ''-'' @ b)"
proof -
  have sb: "split (b @ ''_financial_returns.csv'') CHR ''-'' = [b @ ''_financial_returns.csv'']"
    using assms(2) by (intro split_no_sep) auto
  have "split (pre @ ''-'' @ a @ ''-'' @ b @ ''_financial_returns.csv'') CHR ''-''
        = split pre CHR ''-'' @ [a, b @ ''_financial_returns.csv'']"
    using split_append_sep[of pre "CHR ''-''" "a @ ''-'' @ b @ ''_financial_returns.csv''"]
      split_append_sep[of a "CHR ''-''" "b @ ''_financial_returns.csv''"]
      split_no_sep[OF assms(1)] sb
    by simp
  then show ?thesis
    using replace_strip_suffix[OF assms(3)]
    by (simp add: derive_season_def bind_err_def py_index_last py_index_last2 del: replace.simps)
qed

lemma total_names: "map total_name (dict_keys strategy_colors) = dict_keys column_name_map"
  by (simp add: total_name_def dict_keys_def strategy_colors_def column_name_map_def)

lemma dict_set_fresh: "k \<notin> set (map fst d) \<Longrightarrow> dict_set d k v = d @ [(k, v)]"
  by (induction d) auto

lemma dict_set_keys_present: "k \<in> set (map fst d) \<Longrightarrow> map fst (dict_set d k v) = map fst d"
  by (induction d) fastforce+

lemma dict_set_distinct: "distinct (map fst d) \<Longrightarrow> distinct (map fst (dict_set d k v))"
  by (cases "k \<in> set (map fst d)") (simp_all add: dict_set_keys_present dict_set_fresh)

lemma dict_set_get: "map_of (dict_set d k v) k = Some v"
  by (induction d) auto

lemma dict_set_get_other: "k' \<noteq> k \<Longrightarrow> map_of (dict_set d k v) k' = map_of d k'"
  by (induction d) auto

lemma collect_map_Inr: "collect (map Inr xs) = Inr xs"
  by (induction xs) auto

lemma collect_Inr_D: "collect ms = Inr xs \<Longrightarrow> ms = map Inr xs"
  by (induction ms arbitrary: xs) (auto split: sum.splits)

lemma collect_Inr: "collect ms = Inr xs \<longleftrightarrow> ms = map Inr xs"
  using collect_map_Inr collect_Inr_D by blast

lemma final_values_loop_fresh:
  "distinct (map fst acc @ map total_name cols) \<Longrightarrow>
   final_values_loop df cols acc =
     (case collect (map (final_value df) cols) of
        Inl e \<Rightarrow> Inl e
      | Inr vs \<Rightarrow> Inr (acc @ zip (map total_name cols) vs))"
proof (induction cols arbitrary: acc)
  case Nil
  then show ?case by simp
next
  case (Cons col cols)
  show ?case
  proof (cases "final_value df col")
    case (Inl e)
    then show ?thesis by (simp add: bind_err_def)
  next
    case (Inr v)
    have fresh: "total_name col \<notin> set (map fst acc)"
      using Cons.prems by auto
    have d: "distinct (map fst (acc @ [(total_name col, v)]) @ map total_name cols)"
      using Cons.prems by auto
    show ?thesis
      using Inr Cons.IH[OF d]
      by (simp add: bind_err_def dict_set_fresh[OF fresh] split: sum.splits)
  qed
qed

lemma distinct_total_names: "distinct (map total_name (dict_keys strategy_colors))"
  unfolding total_names by (simp add: dict_keys_def column_name_map_def)

lemma final_values_collect:
  "final_values df =
     (case collect (map (final_value df) (dict_keys strategy_colors)) of
        Inl e \<Rightarrow> Inl e
      | Inr vs \<Rightarrow> Inr (zip (dict_keys column_name_map) vs))"
  using final_values_loop_fresh[of "[]" "dict_keys strategy_colors" df] distinct_total_names
  unfolding final_values_def total_names by (simp split: sum.splits)

lemma final_values_shape:
  assumes "final_values df = Inr fv"
  shows "\<exists>vs. length vs = 7 \<and> fv = zip (dict_keys column_name_map) vs
           \<and> map (final_value df) (dict_keys strategy_colors) = map Inr vs"
proof -
  from assms obtain vs where c: "collect (map (final_value df) (dict_keys strategy_colors)) = Inr vs"
    and fv: "fv = zip (dict_keys column_name_map) vs"
    by (auto simp: final_values_collect split: sum.splits)
  from c have m: "map (final_value df) (dict_keys strategy_colors) = map Inr vs"
    by (simp add: collect_Inr)
  then have "length (map (final_value df) (dict_keys strategy_colors)) = length (map Inr vs :: (error + cell) list)"
    by simp
  then have "length vs = 7"
    by (simp add: dict_keys_def strategy_colors_def)
  with fv m show ?thesis by blast
qed

section \<open>Properties of \<open>max\<close> and \<open>min\<close> with a key\<close>

lemma max_loop_first:
  assumes "\<forall>x\<in>set (b # xs). key x = Some (Num (val x))"
  shows "\<exists>pre r post. b # xs = pre @ r # post \<and> max_loop key b xs = Inr r
           \<and> (\<forall>y\<in>set pre. val y < val r)
           \<and> (\<forall>y\<in>set post. val y \<le> val r)"
  using assms
proof (induction xs arbitrary: b)
  case Nil
  show ?case
    by (rule exI[of _ "[]"], rule exI[of _ b], rule exI[of _ "[]"]) simp
next
  case (Cons x xs)
  from Cons.prems have kx: "key x = Some (Num (val x))" and kb: "key b = Some (Num (val b))"
    by auto
  show ?case
  proof (cases "val b < val x")
    case True
    have "\<forall>y\<in>set (x # xs). key y = Some (Num (val y))" using Cons.prems by simp
    from Cons.IH[OF this] obtain pre r post where
      d: "x # xs = pre @ r # post" and m: "max_loop key x xs = Inr r"
      and lt: "\<forall>y\<in>set pre. val y < val r"
      and le: "\<forall>y\<in>set post. val y \<le> val r"
      by blast
    have "val x \<le> val r"
    proof (cases pre)
      case Nil
      with d have "x = r" by simp
      then show ?thesis by simp
    next
      case (Cons p ps)
      with d have "x \<in> set pre" by simp
      with lt show ?thesis by fastforce
    qed
    with True have "val b < val r" by simp
    with lt have lt': "\<forall>y\<in>set (b # pre). val y < val r" by simp
    have "b # x # xs = (b # pre) @ r # post" using d by simp
    moreover have "max_loop key b (x # xs) = Inr r"
      using True kx kb m by (simp add: py_gt_def bind_err_def)
    ultimately show ?thesis using lt' le by blast
  next
    case False
    have "\<forall>y\<in>set (b # xs). key y = Some (Num (val y))" using Cons.prems by simp
    from Cons.IH[OF this] obtain pre r post where
      d: "b # xs = pre @ r # post" and m: "max_loop key b xs = Inr r"
      and lt: "\<forall>y\<in>set pre. val y < val r"
      and le: "\<forall>y\<in>set post. val y \<le> val r"
      by blast
    have res: "max_loop key b (x # xs) = Inr r"
      using False kx kb m by (simp add: py_gt_def bind_err_def)
    show ?thesis
    proof (cases pre)
      case Nil
      with d have br: "b = r" and post: "post = xs" by simp_all
      have "b # x # xs = [] @ r # (x # xs)" using br by simp
      moreover have "\<forall>y\<in>set (x # xs). val y \<le> val r"
        using le post False br by auto
      ultimately show ?thesis using res by (metis empty_iff empty_set)
    next
      case (Cons p ps)
      with d have p: "p = b" and xs: "xs = ps @ r # post" by simp_all
      have "val b < val r" using lt Cons p by simp
      with False have "val x < val r" by simp
      with lt Cons have "\<forall>y\<in>set (b # x # ps). val y < val r" using p by simp
      moreover have "b # x # xs = (b # x # ps) @ r # post" using xs by simp
      ultimately show ?thesis using res le by blast
    qed
  qed
qed

lemma min_loop_as_max:
  "\<forall>x\<in>set (b # xs). key x = Some (Num (val x)) \<Longrightarrow>
   min_loop key b xs = max_loop (\<lambda>x. Some (Num (- val x))) b xs"
  by (induction xs arbitrary: b) (auto simp: py_gt_def bind_err_def)

lemma min_loop_first:
  assumes "\<forall>x\<in>set (b # xs). key x = Some (Num (val x))"
  shows "\<exists>pre r post. b # xs = pre @ r # post \<and> min_loop key b xs = Inr r
           \<and> (\<forall>y\<in>set pre. val r < val y)
           \<and> (\<forall>y\<in>set post. val r \<le> val y)"
proof -
  let ?k = "\<lambda>x. Some (Num (- val x))"
  have "\<forall>x\<in>set (b # xs). ?k x = Some (Num (- val x))" by simp
  from max_loop_first[of b xs ?k "\<lambda>x. - val x", OF this] obtain pre r post where
    d: "b # xs = pre @ r # post" and m: "max_loop ?k b xs = Inr r"
    and lt: "\<forall>y\<in>set pre. - val y < - val r"
    and le: "\<forall>y\<in>set post. - val y \<le> - val r"
    by blast
  have "min_loop key b xs = Inr r" using m min_loop_as_max[OF assms] by simp
  moreover have "\<forall>y\<in>set pre. val r < val y" using lt by simp
  moreover have "\<forall>y\<in>set post. val r \<le> val y" using le by simp
  ultimately show ?thesis using d by blast
qed

text \<open>
  Whatever the cells are, the result is one of the elements; and the kind of the first
  key decides the kind of the result: from a number only a number that is no smaller
  (for \<open>min\<close>, no larger) is reached, from a string only a string that is no smaller
  (no larger), and a not-a-number first key is never replaced.
\<close>

lemma max_loop_mem: "max_loop key b xs = Inr r \<Longrightarrow> r \<in> set (b # xs)"
proof (induction xs arbitrary: b)
  case Nil
  then show ?case by simp
next
  case (Cons x xs)
  from Cons.prems obtain a c g where "key x = Some a" "key b = Some c" "py_gt a c = Inr g"
    and m: "max_loop key (if g then x else b) xs = Inr r"
    by (auto simp: bind_err_def split: option.splits sum.splits)
  from Cons.IH[OF m] show ?case by (auto split: if_splits)
qed

lemma min_loop_mem: "min_loop key b xs = Inr r \<Longrightarrow> r \<in> set (b # xs)"
proof (induction xs arbitrary: b)
  case Nil
  then show ?case by simp
next
  case (Cons x xs)
  from Cons.prems obtain a c g where "key x = Some a" "key b = Some c" "py_lt a c = Inr g"
    and m: "min_loop key (if g then x else b) xs = Inr r"
    by (auto simp: bind_err_def split: option.splits sum.splits)
  from Cons.IH[OF m] show ?case by (auto split: if_splits)
qed

lemma py_lt_Num_right: "py_lt a (Num c) = Inr g \<Longrightarrow> (g \<longrightarrow> (\<exists>y. a = Num y \<and> y < c))"
  by (cases a) auto

lemma max_loop_from_number:
  "key b = Some (Num c) \<Longrightarrow> max_loop key b xs = Inr r \<Longrightarrow> \<exists>m. key r = Some (Num m) \<and> c \<le> m"
proof (induction xs arbitrary: b c)
  case Nil
  then show ?case by simp
next
  case (Cons x xs)
  from Cons.prems obtain a g where kx: "key x = Some a" and g: "py_gt a (Num c) = Inr g"
    and m: "max_loop key (if g then x else b) xs = Inr r"
    by (auto simp: bind_err_def split: option.splits sum.splits)
  show ?case
  proof (cases g)
    case True
    with g obtain y where a: "a = Num y" and y: "c < y"
      by (cases a) (auto simp: py_gt_def)
    from Cons.IH[of x y] kx a m True obtain v where "key r = Some (Num v)" "y \<le> v" by auto
    with y show ?thesis by auto
  next
    case False
    from Cons.IH[of b c] Cons.prems(1) m False show ?thesis by auto
  qed
qed

lemma min_loop_from_number:
  "key b = Some (Num c) \<Longrightarrow> min_loop key b xs = Inr r \<Longrightarrow> \<exists>m. key r = Some (Num m) \<and> m \<le> c"
proof (induction xs arbitrary: b c)
  case Nil
  then show ?case by simp
next
  case (Cons x xs)
  from Cons.prems obtain a g where kx: "key x = Some a" and g: "py_lt a (Num c) = Inr g"
    and m: "min_loop key (if g then x else b) xs = Inr r"
    by (auto simp: bind_err_def split: option.splits sum.splits)
  show ?case
  proof (cases g)
    case True
    with py_lt_Num_right[OF g] obtain y where a: "a = Num y" and y: "y < c" by auto
    from Cons.IH[of x y] kx a m True obtain v where "key r = Some (Num v)" "v \<le> y" by auto
    with y show ?thesis by auto
  next
    case False
    from Cons.IH[of b c] Cons.prems(1) m False show ?thesis by auto
  qed
qed

lemma max_loop_from_nan: "key b = Some NaN \<Longrightarrow> max_loop key b xs = Inr r \<Longrightarrow> r = b"
proof (induction xs)
  case Nil
  then show ?case by simp
next
  case (Cons x xs)
  from Cons.prems obtain a g where "key x = Some a" and g: "py_gt a NaN = Inr g"
    and m: "max_loop key (if g then x else b) xs = Inr r"
    by (auto simp: bind_err_def split: option.splits sum.splits)
  from g have "\<not> g" by (cases a) (auto simp: py_gt_def)
  with m Cons show ?case by simp
qed

lemma min_loop_from_nan: "key b = Some NaN \<Longrightarrow> min_loop key b xs = Inr r \<Longrightarrow> r = b"
proof (induction xs)
  case Nil
  then show ?case by simp
next
  case (Cons x xs)
  from Cons.prems obtain a g where "key x = Some a" and g: "py_lt a NaN = Inr g"
    and m: "min_loop key (if g then x else b) xs = Inr r"
    by (auto simp: bind_err_def split: option.splits sum.splits)
  from g have "\<not> g" by (cases a) auto
  with m Cons show ?case by simp
qed

lemma str_lt_irrefl: "\<not> str_lt s s"
  by (induction s) auto

lemma str_lt_trans: "str_lt a b \<Longrightarrow> str_lt b c \<Longrightarrow> str_lt a c"
proof (induction a arbitrary: b c)
  case Nil
  then show ?case by (cases b; cases c) auto
next
  case (Cons x xs)
  then show ?case by (cases b; cases c) (auto split: if_splits)
qed

lemma str_lt_cotrans: "str_lt a c \<Longrightarrow> str_lt a b \<or> str_lt b c"
proof (induction a arbitrary: b c)
  case Nil
  then show ?case by (cases b; cases c) auto
next
  case (Cons x xs)
  then show ?case by (cases b; cases c) (auto split: if_splits simp: not_less le_less)
qed

lemma max_loop_from_string_ge:
  "key b = Some (Str s) \<Longrightarrow> max_loop key b xs = Inr r \<Longrightarrow>
   \<exists>t. key r = Some (Str t) \<and> \<not> str_lt t s"
proof (induction xs arbitrary: b s)
  case Nil
  then show ?case by (simp add: str_lt_irrefl)
next
  case (Cons x xs)
  from Cons.prems obtain a g where kx: "key x = Some a" and g: "py_gt a (Str s) = Inr g"
    and m: "max_loop key (if g then x else b) xs = Inr r"
    by (auto simp: bind_err_def split: option.splits sum.splits)
  from g obtain t' where a: "a = Str t'" and gt: "g = str_lt s t'"
    by (cases a) (auto simp: py_gt_def)
  show ?case
  proof (cases g)
    case True
    from Cons.IH[of x t'] kx a m True obtain t where t: "key r = Some (Str t)" "\<not> str_lt t t'"
      by auto
    have "\<not> str_lt t s" using t(2) True gt str_lt_trans by blast
    with t show ?thesis by blast
  next
    case False
    from Cons.IH[of b s] Cons.prems(1) m False show ?thesis by auto
  qed
qed

lemma min_loop_from_string_le:
  "key b = Some (Str s) \<Longrightarrow> min_loop key b xs = Inr r \<Longrightarrow>
   \<exists>u. key r = Some (Str u) \<and> \<not> str_lt s u"
proof (induction xs arbitrary: b s)
  case Nil
  then show ?case by (simp add: str_lt_irrefl)
next
  case (Cons x xs)
  from Cons.prems obtain a g where kx: "key x = Some a" and g: "py_lt a (Str s) = Inr g"
    and m: "min_loop key (if g then x else b) xs = Inr r"
    by (auto simp: bind_err_def split: option.splits sum.splits)
  from g obtain u' where a: "a = Str u'" and lt: "g = str_lt u' s"
    by (cases a) auto
  show ?case
  proof (cases g)
    case True
    from Cons.IH[of x u'] kx a m True obtain u where u: "key r = Some (Str u)" "\<not> str_lt u' u"
      by auto
    have "\<not> str_lt s u" using u(2) True lt str_lt_trans by blast
    with u show ?thesis by blast
  next
    case False
    from Cons.IH[of b s] Cons.prems(1) m False show ?thesis by auto
  qed
qed

lemma map_of_zip_at:
  assumes "distinct ks" "length ks = length vs" "j < length ks"
  shows "map_of (zip ks vs) (ks ! j) = Some (vs ! j)"
  using assms by (simp add: map_of_zip_nth)

lemma split_list_indices:
  assumes ksd: "ks = pre @ r # post"
  shows "length pre < length ks" and "ks ! length pre = r"
    and "\<And>j. j < length pre \<Longrightarrow> ks ! j \<in> set pre"
    and "\<And>j. length pre < j \<Longrightarrow> j < length ks \<Longrightarrow> ks ! j \<in> set post"
proof -
  show "length pre < length ks" by (simp add: ksd)
  show "ks ! length pre = r" by (simp add: ksd)
  show "ks ! j \<in> set pre" if "j < length pre" for j
    using that by (simp add: ksd nth_append)
  show "ks ! j \<in> set post" if "length pre < j" "j < length ks" for j
  proof -
    have "ks ! j = post ! (j - Suc (length pre))"
      using that by (simp add: ksd nth_append nth_Cons')
    moreover have "j - Suc (length pre) < length post"
      using that by (auto simp: ksd)
    ultimately show ?thesis by simp
  qed
qed

lemma numeric_keys:
  assumes dist: "distinct ks" and len: "length ks = length vs"
  shows "\<forall>x\<in>set ks. dict_get (zip ks (map Num vs)) x
           = Some (Num (case dict_get (zip ks (map Num vs)) x of Some (Num v) \<Rightarrow> v | _ \<Rightarrow> 0))"
proof
  fix x assume "x \<in> set ks"
  then obtain j where j: "j < length ks" and x: "x = ks ! j" by (auto simp: in_set_conv_nth)
  have "map_of (zip ks (map Num vs)) (ks ! j) = Some (map Num vs ! j)"
    by (rule map_of_zip_at[OF dist _ j]) (simp add: len)
  then show "dict_get (zip ks (map Num vs)) x
           = Some (Num (case dict_get (zip ks (map Num vs)) x of Some (Num v) \<Rightarrow> v | _ \<Rightarrow> 0))"
    using j len by (simp add: dict_get_def x)
qed

lemma py_max_zip:
  assumes dist: "distinct ks" and len: "length ks = length vs" and ne: "ks \<noteq> []"
  shows "\<exists>i<length ks.
           py_max (dict_keys (zip ks (map Num vs))) (dict_get (zip ks (map Num vs))) = Inr (ks ! i)
           \<and> (\<forall>j<length ks. vs ! j \<le> vs ! i) \<and> (\<forall>j<i. vs ! j < vs ! i)"
proof -
  let ?key = "dict_get (zip ks (map Num vs))"
  let ?val = "\<lambda>x. case ?key x of Some (Num v) \<Rightarrow> v | _ \<Rightarrow> 0"
  from ne obtain b xs where ks: "ks = b # xs" by (cases ks) auto
  have val: "?val (ks ! j) = vs ! j" if "j < length ks" for j
  proof -
    have "map_of (zip ks (map Num vs)) (ks ! j) = Some (map Num vs ! j)"
      by (rule map_of_zip_at[OF dist _ that]) (simp add: len)
    then show ?thesis using that len by (simp add: dict_get_def)
  qed
  have "\<forall>x\<in>set (b # xs). ?key x = Some (Num (?val x))"
    using numeric_keys[OF dist len] ks by simp
  from max_loop_first[of b xs ?key ?val, OF this] obtain pre r post where
    d: "b # xs = pre @ r # post" and m: "max_loop ?key b xs = Inr r"
    and lt: "\<forall>y\<in>set pre. ?val y < ?val r"
    and le: "\<forall>y\<in>set post. ?val y \<le> ?val r"
    by blast
  have ksd: "ks = pre @ r # post" using d ks by simp
  note ix = split_list_indices[OF ksd]
  let ?i = "length pre"
  have vr: "?val r = vs ! ?i" using val[OF ix(1)] ix(2) by simp
  have keys: "dict_keys (zip ks (map Num vs)) = ks" using len by (simp add: dict_keys_def)
  have "py_max ks ?key = Inr r"
    using m by (simp add: py_max_def ks)
  then have res: "py_max (dict_keys (zip ks (map Num vs))) ?key = Inr (ks ! ?i)"
    unfolding keys using ix(2) by simp
  have before: "vs ! j < vs ! ?i" if "j < ?i" for j
  proof -
    have "?val (ks ! j) < ?val r" using lt ix(3)[OF that] by blast
    moreover have "j < length ks" using that ix(1) by simp
    ultimately show ?thesis using val vr by simp
  qed
  have all: "vs ! j \<le> vs ! ?i" if "j < length ks" for j
  proof -
    consider "j < ?i" | "j = ?i" | "?i < j" by linarith
    then show ?thesis
    proof cases
      case 1 then show ?thesis using before by fastforce
    next
      case 2 then show ?thesis by simp
    next
      case 3
      have "?val (ks ! j) \<le> ?val r" using le ix(4)[OF 3 that] by blast
      then show ?thesis using val[OF that] vr by simp
    qed
  qed
  show ?thesis using ix(1) res all before by blast
qed

lemma py_min_zip:
  assumes dist: "distinct ks" and len: "length ks = length vs" and ne: "ks \<noteq> []"
  shows "\<exists>i<length ks.
           py_min (dict_keys (zip ks (map Num vs))) (dict_get (zip ks (map Num vs))) = Inr (ks ! i)
           \<and> (\<forall>j<length ks. vs ! i \<le> vs ! j) \<and> (\<forall>j<i. vs ! i < vs ! j)"
proof -
  let ?key = "dict_get (zip ks (map Num vs))"
  let ?val = "\<lambda>x. case ?key x of Some (Num v) \<Rightarrow> v | _ \<Rightarrow> 0"
  from ne obtain b xs where ks: "ks = b # xs" by (cases ks) auto
  have val: "?val (ks ! j) = vs ! j" if "j < length ks" for j
  proof -
    have "map_of (zip ks (map Num vs)) (ks ! j) = Some (map Num vs ! j)"
      by (rule map_of_zip_at[OF dist _ that]) (simp add: len)
    then show ?thesis using that len by (simp add: dict_get_def)
  qed
  have "\<forall>x\<in>set (b # xs). ?key x = Some (Num (?val x))"
    using numeric_keys[OF dist len] ks by simp
  from min_loop_first[of b xs ?key ?val, OF this] obtain pre r post where
    d: "b # xs = pre @ r # post" and m: "min_loop ?key b xs = Inr r"
    and lt: "\<forall>y\<in>set pre. ?val r < ?val y"
    and le: "\<forall>y\<in>set post. ?val r \<le> ?val y"
    by blast
  have ksd: "ks = pre @ r # post" using d ks by simp
  note ix = split_list_indices[OF ksd]
  let ?i = "length pre"
  have vr: "?val r = vs ! ?i" using val[OF ix(1)] ix(2) by simp
  have keys: "dict_keys (zip ks (map Num vs)) = ks" using len by (simp add: dict_keys_def)
  have "py_min ks ?key = Inr r"
    using m by (simp add: py_min_def ks)
  then have res: "py_min (dict_keys (zip ks (map Num vs))) ?key = Inr (ks ! ?i)"
    unfolding keys using ix(2) by simp
  have before: "vs ! ?i < vs ! j" if "j < ?i" for j
  proof -
    have "?val r < ?val (ks ! j)" using lt ix(3)[OF that] by blast
    moreover have "j < length ks" using that ix(1) by simp
    ultimately show ?thesis using val vr by simp
  qed
  have all: "vs ! ?i \<le> vs ! j" if "j < length ks" for j
  proof -
    consider "j < ?i" | "j = ?i" | "?i < j" by linarith
    then show ?thesis
    proof cases
      case 1 then show ?thesis using before by fastforce
    next
      case 2 then show ?thesis by simp
    next
      case 3
      have "?val r \<le> ?val (ks ! j)" using le ix(4)[OF 3 that] by blast
      then show ?thesis using val[OF that] vr by simp
    qed
  qed
  show ?thesis using ix(1) res all before by blast
qed

section \<open>Properties of the summary of one league\<close>

lemma index_of_Some: "index_of xs x = Some j \<Longrightarrow> j < length xs \<and> xs ! j = x"
  by (induction xs arbitrary: j) (auto split: if_splits)

lemma nth_opt_nth: "j < length xs \<Longrightarrow> nth_opt xs j = Some (xs ! j)"
  by (induction xs j rule: nth_opt.induct) auto

lemma py_index_minus1: "xs \<noteq> [] \<Longrightarrow> py_index xs (- 1) = Inr (last xs)"
proof -
  assume ne: "xs \<noteq> []"
  then have "nat (int (length xs) + (- 1)) = length xs - 1" and "Suc 0 \<le> length xs"
    by (simp_all add: Suc_le_eq)
  with ne show ?thesis by (simp add: py_index_def last_conv_nth)
qed

lemma get_column_rectangular:
  assumes rect: "rectangular df" and ix: "index_of (columns df) col = Some j"
  shows "get_column df col = Inr (map (\<lambda>r. r ! j) (rows df))"
proof -
  have j: "j < length (columns df)" using index_of_Some[OF ix] by simp
  have "row_cell df r col = Inr (r ! j)" if "r \<in> set (rows df)" for r
  proof -
    have "length r = length (columns df)"
      using rect that by (simp add: rectangular_def list_all_iff)
    then show ?thesis using ix j by (simp add: row_cell_def nth_opt_nth)
  qed
  then have eq: "map (\<lambda>r. row_cell df r col) (rows df) = map Inr (map (\<lambda>r. r ! j) (rows df))"
    by simp
  show ?thesis
    by (simp only: get_column_def ix option.case eq collect_map_Inr)
qed

lemma final_value_last_row:
  assumes rect: "rectangular df" and ne: "rows df \<noteq> []"
    and ix: "index_of (columns df) col = Some j"
  shows "final_value df col = Inr (last (rows df) ! j)"
  using ne
  by (simp add: final_value_def get_column_rectangular[OF rect ix] bind_err_def
      py_index_minus1 last_map)

lemma Max_at_index:
  fixes vs :: "real list"
  assumes "i < length vs" "\<forall>j<length vs. vs ! j \<le> vs ! i"
  shows "Max (set vs) = vs ! i"
proof (rule Max_eqI)
  show "finite (set vs)" by simp
  show "y \<le> vs ! i" if "y \<in> set vs" for y
    using that assms(2) by (auto simp: in_set_conv_nth)
  show "vs ! i \<in> set vs" using assms(1) by simp
qed

lemma Min_at_index:
  fixes vs :: "real list"
  assumes "i < length vs" "\<forall>j<length vs. vs ! i \<le> vs ! j"
  shows "Min (set vs) = vs ! i"
proof (rule Min_eqI)
  show "finite (set vs)" by simp
  show "vs ! i \<le> y" if "y \<in> set vs" for y
    using that assms(2) by (auto simp: in_set_conv_nth)
  show "vs ! i \<in> set vs" using assms(1) by simp
qed

lemma column_name_keys:
  "distinct (dict_keys column_name_map)" "length (dict_keys column_name_map) = 7"
  by (simp_all add: dict_keys_def column_name_map_def)

lemma summarise_league_zip:
  assumes fv: "final_values df = Inr (zip (dict_keys column_name_map) (map Num vs))"
    and len: "length vs = 7"
  shows "\<exists>ib<7. \<exists>iw<7.
           summarise_league league df =
             Inr \<lparr>league_name = league,
                  best_return = Num (vs ! ib), best_return_column = dict_keys column_name_map ! ib,
                  worst_return = Num (vs ! iw), worst_return_column = dict_keys column_name_map ! iw\<rparr>
           \<and> (\<forall>j<7. vs ! j \<le> vs ! ib) \<and> (\<forall>j<ib. vs ! j < vs ! ib)
           \<and> (\<forall>j<7. vs ! iw \<le> vs ! j) \<and> (\<forall>j<iw. vs ! iw < vs ! j)"
proof -
  let ?ks = "dict_keys column_name_map"
  let ?fv = "zip ?ks (map Num vs)"
  have d: "distinct ?ks" and l: "length ?ks = length vs" and ne: "?ks \<noteq> []"
    using column_name_keys len by auto
  have l': "length ?ks = length (map Num vs)" using l by simp
  from py_max_zip[OF d l ne] obtain ib where ib: "ib < 7"
    and mx: "py_max (dict_keys ?fv) (dict_get ?fv) = Inr (?ks ! ib)"
    and mxa: "\<forall>j<7. vs ! j \<le> vs ! ib" and mxb: "\<forall>j<ib. vs ! j < vs ! ib"
    using column_name_keys(2) by auto
  from py_min_zip[OF d l ne] obtain iw where iw: "iw < 7"
    and mn: "py_min (dict_keys ?fv) (dict_get ?fv) = Inr (?ks ! iw)"
    and mna: "\<forall>j<7. vs ! iw \<le> vs ! j" and mnb: "\<forall>j<iw. vs ! iw < vs ! j"
    using column_name_keys(2) by auto
  have gb: "dict_item ?fv (?ks ! ib) = Inr (Num (vs ! ib))"
    using map_of_zip_at[OF d l', of ib] ib column_name_keys(2) len
    by (simp add: dict_item_def dict_get_def)
  have gw: "dict_item ?fv (?ks ! iw) = Inr (Num (vs ! iw))"
    using map_of_zip_at[OF d l', of iw] iw column_name_keys(2) len
    by (simp add: dict_item_def dict_get_def)
  have "summarise_league league df =
          Inr \<lparr>league_name = league,
               best_return = Num (vs ! ib), best_return_column = ?ks ! ib,
               worst_return = Num (vs ! iw), worst_return_column = ?ks ! iw\<rparr>"
    by (simp add: summarise_league_def fv bind_err_def mx mn gb gw)
  with ib iw mxa mxb mna mnb show ?thesis by blast
qed

lemma summarise_league_parts:
  assumes "summarise_league league df = Inr r"
  shows "\<exists>fv. final_values df = Inr fv \<and> league_name r = league
           \<and> py_max (dict_keys fv) (dict_get fv) = Inr (best_return_column r)
           \<and> py_min (dict_keys fv) (dict_get fv) = Inr (worst_return_column r)
           \<and> dict_get fv (best_return_column r) = Some (best_return r)
           \<and> dict_get fv (worst_return_column r) = Some (worst_return r)"
  using assms
  by (auto simp: summarise_league_def bind_err_def dict_item_def split: sum.splits option.splits)

lemma py_max_mem: "py_max xs key = Inr r \<Longrightarrow> r \<in> set xs"
  by (cases xs) (auto simp: py_max_def dest: max_loop_mem)

lemma py_min_mem: "py_min xs key = Inr r \<Longrightarrow> r \<in> set xs"
  by (cases xs) (auto simp: py_min_def dest: min_loop_mem)

lemma strategy_keys_length: "length (dict_keys strategy_colors) = 7"
  by (simp add: dict_keys_def strategy_colors_def)

lemma final_values_of_cells:
  assumes rect: "rectangular df" and ne: "rows df \<noteq> []" and len: "length cs = 7"
    and cols: "\<forall>i<7. \<exists>j. index_of (columns df) (dict_keys strategy_colors ! i) = Some j
                 \<and> last (rows df) ! j = cs ! i"
  shows "final_values df = Inr (zip (dict_keys column_name_map) cs)"
proof -
  have one: "final_value df (dict_keys strategy_colors ! i) = Inr (cs ! i)" if "i < 7" for i
  proof -
    from cols that obtain j where
      ix: "index_of (columns df) (dict_keys strategy_colors ! i) = Some j"
      and c: "last (rows df) ! j = cs ! i" by blast
    show ?thesis
      by (simp add: final_value_last_row[OF rect ne ix] c)
  qed
  have "map (final_value df) (dict_keys strategy_colors) = map Inr cs"
    by (rule nth_equalityI) (simp_all add: len strategy_keys_length one)
  then show ?thesis
    by (simp add: final_values_collect collect_map_Inr)
qed

lemma final_values_of_last_row:
  assumes rect: "rectangular df" and ne: "rows df \<noteq> []" and len: "length vs = 7"
    and cols: "\<forall>i<7. \<exists>j. index_of (columns df) (dict_keys strategy_colors ! i) = Some j
                 \<and> last (rows df) ! j = Num (vs ! i)"
  shows "final_values df = Inr (zip (dict_keys column_name_map) (map Num vs))"
proof (rule final_values_of_cells[OF rect ne])
  show "length (map Num vs) = 7" using len by simp
  show "\<forall>i<7. \<exists>j. index_of (columns df) (dict_keys strategy_colors ! i) = Some j
                 \<and> last (rows df) ! j = map Num vs ! i"
    using cols len by simp
qed

lemma seven_cases: "i < 7 \<Longrightarrow> i = 0 \<or> i = 1 \<or> i = 2 \<or> i = 3 \<or> i = 4 \<or> i = 5 \<or> i = (6::nat)"
  by arith

lemma fixtures_ending_ok:
  assumes "length cs = 7"
  shows "rectangular (fixtures_ending cs)" "rows (fixtures_ending cs) \<noteq> []"
    "\<forall>i<7. \<exists>j. index_of (columns (fixtures_ending cs)) (dict_keys strategy_colors ! i) = Some j
                 \<and> last (rows (fixtures_ending cs)) ! j = cs ! i"
proof -
  show "rectangular (fixtures_ending cs)"
    using assms by (simp add: rectangular_def fixtures_ending_def dict_keys_def strategy_colors_def)
  show "rows (fixtures_ending cs) \<noteq> []" by (simp add: fixtures_ending_def)
  show "\<forall>i<7. \<exists>j. index_of (columns (fixtures_ending cs)) (dict_keys strategy_colors ! i) = Some j
                 \<and> last (rows (fixtures_ending cs)) ! j = cs ! i"
  proof (intro allI impI)
    fix i :: nat assume "i < 7"
    then have i: "i = 0 \<or> i = 1 \<or> i = 2 \<or> i = 3 \<or> i = 4 \<or> i = 5 \<or> i = 6" by (rule seven_cases)
    have "index_of (dict_keys strategy_colors) (dict_keys strategy_colors ! i) = Some i"
      using i by (auto simp: dict_keys_def strategy_colors_def)
    then show "\<exists>j. index_of (columns (fixtures_ending cs)) (dict_keys strategy_colors ! i) = Some j
                 \<and> last (rows (fixtures_ending cs)) ! j = cs ! i"
      by (simp add: fixtures_ending_def)
  qed
qed

lemma two_fixtures_ending: "two_fixtures finals = fixtures_ending (map Num finals)"
  by (simp add: two_fixtures_def fixtures_ending_def)

lemma two_fixtures_ok:
  assumes "length finals = 7"
  shows "rectangular (two_fixtures finals)" "rows (two_fixtures finals) \<noteq> []"
    "\<forall>i<7. \<exists>j. index_of (columns (two_fixtures finals)) (dict_keys strategy_colors ! i) = Some j
                 \<and> last (rows (two_fixtures finals)) ! j = Num (finals ! i)"
  using fixtures_ending_ok[of "map Num finals"] assms
  by (simp_all add: two_fixtures_ending)

lemma final_values_fixtures_ending:
  "length cs = 7 \<Longrightarrow>
   final_values (fixtures_ending cs) = Inr (zip (dict_keys column_name_map) cs)"
  by (rule final_values_of_cells[OF fixtures_ending_ok(1) fixtures_ending_ok(2) _ fixtures_ending_ok(3)])

lemma final_values_two_fixtures:
  "length finals = 7 \<Longrightarrow>
   final_values (two_fixtures finals) = Inr (zip (dict_keys column_name_map) (map Num finals))"
  by (simp add: two_fixtures_ending final_values_fixtures_ending)

lemma summarise_league_numbers:
  assumes r: "summarise_league league df = Inr r"
    and fv: "final_values df = Inr fv" and nums: "map snd fv = map Num vs"
  shows "\<exists>ib iw. length vs = 7 \<and> ib < 7 \<and> iw < 7
           \<and> fv = zip (dict_keys column_name_map) (map Num vs)
           \<and> r = \<lparr>league_name = league,
                    best_return = Num (vs ! ib), best_return_column = dict_keys column_name_map ! ib,
                    worst_return = Num (vs ! iw), worst_return_column = dict_keys column_name_map ! iw\<rparr>
           \<and> (\<forall>j<7. vs ! j \<le> vs ! ib) \<and> (\<forall>j<ib. vs ! j < vs ! ib)
           \<and> (\<forall>j<7. vs ! iw \<le> vs ! j) \<and> (\<forall>j<iw. vs ! iw < vs ! j)"
proof -
  from final_values_shape[OF fv] obtain cs where len: "length cs = 7"
    and z: "fv = zip (dict_keys column_name_map) cs" by blast
  have "map snd fv = cs" using len column_name_keys(2) by (simp add: z)
  with nums have cs: "cs = map Num vs" by simp
  then have lv: "length vs = 7" using len by simp
  from summarise_league_zip[OF fv[unfolded z cs] lv, of league] r z cs lv
  show ?thesis by auto
qed

lemma extremes_ordered:
  assumes mx: "max_loop key k0 rest = Inr bc" and mn: "min_loop key k0 rest = Inr wc"
    and k0: "key k0 = Some a"
    and b: "key bc = Some vb" and w: "key wc = Some vw" and nn: "vb \<noteq> NaN"
  shows "py_ge vb vw = Inr True"
proof (cases a)
  case (Num c)
  from max_loop_from_number[OF k0[unfolded Num] mx] b obtain m where "vb = Num m" "c \<le> m" by auto
  moreover from min_loop_from_number[OF k0[unfolded Num] mn] w obtain m' where "vw = Num m'" "m' \<le> c"
    by auto
  ultimately show ?thesis by simp
next
  case NaN
  from max_loop_from_nan[OF k0[unfolded NaN] mx] k0 NaN b nn show ?thesis by simp
next
  case (Str s)
  from max_loop_from_string_ge[OF k0[unfolded Str] mx] b obtain t where t: "vb = Str t" "\<not> str_lt t s"
    by auto
  from min_loop_from_string_le[OF k0[unfolded Str] mn] w obtain u where u: "vw = Str u" "\<not> str_lt s u"
    by auto
  have "\<not> str_lt t u" using t(2) u(2) str_lt_cotrans by blast
  then show ?thesis by (simp add: t u)
qed

lemma summarise_tied:
  "summarise_league ''Serie A (Italy)'' (two_fixtures [5, 5, 1, 5, 1, 1, 1]) =
     Inr \<lparr>league_name = ''Serie A (Italy)'',
          best_return = Num 5, best_return_column = ''home_returns_total'',
          worst_return = Num 1, worst_return_column = ''away_returns_total''\<rparr>"
  by (simp add: summarise_league_def final_values_two_fixtures bind_err_def py_max_def py_min_def
      py_gt_def dict_keys_def dict_get_def dict_item_def column_name_map_def)

lemma summarise_spread:
  "summarise_league ''Championship'' (two_fixtures [3, - 4, 0, 12, 7, - 9, 2]) =
     Inr \<lparr>league_name = ''Championship'',
          best_return = Num 12, best_return_column = ''first_choice_returns_total'',
          worst_return = Num (- 9), worst_return_column = ''third_choice_returns_total''\<rparr>"
  by (simp add: summarise_league_def final_values_two_fixtures bind_err_def py_max_def py_min_def
      py_gt_def dict_keys_def dict_get_def dict_item_def column_name_map_def)

lemma column_names_in_map:
  "k \<in> set (dict_keys column_name_map) \<Longrightarrow> \<exists>d. dict_get column_name_map k = Some d"
  by (cases "map_of column_name_map k") (auto simp: dict_get_def dict_keys_def map_of_eq_None_iff)

lemma summarise_random_best:
  "summarise_league ''League Two'' (two_fixtures [0, 0, 0, 0, 0, - 3, 5]) =
     Inr \<lparr>league_name = ''League Two'',
          best_return = Num 5, best_return_column = ''random_choice_1_total'',
          worst_return = Num (- 3), worst_return_column = ''third_choice_returns_total''\<rparr>"
  by (simp add: summarise_league_def final_values_two_fixtures bind_err_def py_max_def py_min_def
      py_gt_def dict_keys_def dict_get_def dict_item_def column_name_map_def)

lemma summarise_nan_first:
  "summarise_league league (fixtures_ending [NaN, Num c1, Num c2, Num c3, Num c4, Num c5, Num c6]) =
     Inr \<lparr>league_name = league,
          best_return = NaN, best_return_column = ''home_returns_total'',
          worst_return = NaN, worst_return_column = ''home_returns_total''\<rparr>"
  by (simp add: summarise_league_def final_values_fixtures_ending bind_err_def py_max_def py_min_def
      py_gt_def dict_keys_def dict_get_def dict_item_def column_name_map_def)

section \<open>Properties of the loader\<close>

lemma dict_set_has_key: "k \<in> set (map fst (dict_set d k v))"
proof -
  have "map_of (dict_set d k v) k \<noteq> None" by (simp add: dict_set_get)
  then show ?thesis by (simp add: map_of_eq_None_iff)
qed

lemma load_loop_distinct:
  "distinct (dict_keys st) \<Longrightarrow> distinct (dict_keys (fst (load_loop fs st sel)))"
proof (induction sel arbitrary: st)
  case Nil
  then show ?case by simp
next
  case (Cons league rest)
  show ?case
  proof (cases "load_league fs league")
    case (Inl e)
    then show ?thesis using Cons.prems by simp
  next
    case (Inr df)
    have "distinct (dict_keys (dict_set st (key_name league) df))"
      using Cons.prems dict_set_distinct[of st] by (simp add: dict_keys_def)
    from Cons.IH[OF this] show ?thesis using Inr by simp
  qed
qed

lemma load_data_store: "store (load_data fs st sel) = fst (load_loop fs st sel)"
  by (cases sel; cases "load_loop fs st sel") (auto simp: load_data_def split: option.splits)

lemma load_many_distinct:
  "distinct (dict_keys st) \<Longrightarrow> distinct (dict_keys (load_many st presses))"
proof (induction presses arbitrary: st)
  case Nil
  then show ?case by simp
next
  case (Cons p presses)
  obtain fs sel where p: "p = (fs, sel)" by (cases p)
  have "distinct (dict_keys (store (load_data fs st sel)))"
    using load_loop_distinct[OF Cons.prems] by (simp add: load_data_store)
  from Cons.IH[OF this] show ?case by (simp add: p)
qed

lemma distinct_keys_one_entry:
  "distinct (map fst d) \<Longrightarrow> length (filter (\<lambda>(k', v). k' = k) d) \<le> 1"
proof (induction d)
  case Nil
  then show ?case by simp
next
  case (Cons a d)
  obtain k' v where a: "a = (k', v)" by (cases a)
  show ?case
  proof (cases "k' = k")
    case True
    then have "k \<notin> fst ` set d" using Cons.prems a by simp
    then have "filter (\<lambda>(k', v). k' = k) d = []"
      by (force simp: filter_empty_conv)
    then show ?thesis using a True by simp
  next
    case False
    then show ?thesis using Cons a by simp
  qed
qed

lemma load_data_one:
  assumes "load_league fs league = Inr df"
  shows "store (load_data fs st [league]) = dict_set st (key_name league) df"
  using assms by (simp add: load_data_def)

lemma inj_key_name: "inj key_name"
  by (simp add: inj_on_def key_name_def)

lemma load_league_two_fixtures:
  assumes "dict_get league_files league = Some file_path"
    and "derive_season file_path = Inr season"
    and "fs file_path = Inr (two_fixtures finals)"
  shows "load_league fs league =
           Inr \<lparr>columns = ''league_name'' # ''season'' # dict_keys strategy_colors,
                rows = [Str league # Str season # map Num [1, 2, 3, 4, 5, 6, 7],
                        Str league # Str season # map Num finals]\<rparr>"
  using assms
  by (simp add: load_league_def dict_item_def bind_err_def insert_col_def two_fixtures_def
      dict_keys_def strategy_colors_def)

lemma premier_league_file:
  "dict_get league_files ''Premier League''
     = Some ''england_premier-league-2023-2024_financial_returns.csv''"
  "derive_season ''england_premier-league-2023-2024_financial_returns.csv'' = Inr ''2023-2024''"
  by (simp_all add: dict_get_def league_files_def derive_season_def py_index_def bind_err_def)

lemma load_premier_league:
  "load_league (files_with finals) ''Premier League'' =
     Inr \<lparr>columns = ''league_name'' # ''season'' # dict_keys strategy_colors,
          rows = [Str ''Premier League'' # Str ''2023-2024'' # map Num [1, 2, 3, 4, 5, 6, 7],
                  Str ''Premier League'' # Str ''2023-2024'' # map Num finals]\<rparr>"
  by (rule load_league_two_fixtures[OF premier_league_file]) (simp add: files_with_def)

section \<open>Properties of the two loops over the selection\<close>

lemma loaded_iff: "loaded st league \<longleftrightarrow> dict_get st (key_name league) \<noteq> None"
  by (simp add: loaded_def dict_get_def dict_keys_def map_of_eq_None_iff)

lemma plot_loop_skip: "plot_loop st sel = plot_loop st (filter (loaded st) sel)"
  by (induction sel) (auto simp: loaded_iff split: option.splits sum.splits prod.splits)

lemma summary_loop_skip: "summary_loop st sel = summary_loop st (filter (loaded st) sel)"
  by (induction sel) (auto simp: loaded_iff bind_err_def split: option.splits sum.splits)

lemma plot_league_name: "plot_league league df = Inr ch \<Longrightarrow> chart_league ch = league"
  by (auto simp: plot_league_def bind_err_def Let_def split: sum.splits)

lemma summarise_league_name: "summarise_league league df = Inr r \<Longrightarrow> league_name r = league"
  using summarise_league_parts[of league df r] by auto

lemma plot_loop_leagues:
  "plot_loop st sel = (chs, None) \<Longrightarrow> map chart_league chs = filter (loaded st) sel"
proof (induction sel arbitrary: chs)
  case Nil
  then show ?case by simp
next
  case (Cons league rest)
  show ?case
  proof (cases "dict_get st (key_name league)")
    case None
    then show ?thesis using Cons by (simp add: loaded_iff)
  next
    case (Some df)
    with Cons.prems obtain ch chs' where ch: "plot_league league df = Inr ch"
      and rest: "plot_loop st rest = (chs', None)" and chs: "chs = ch # chs'"
      by (auto split: sum.splits prod.splits)
    from Cons.IH[OF rest] plot_league_name[OF ch] Some chs
    show ?thesis by (simp add: loaded_iff)
  qed
qed

lemma summary_loop_leagues:
  "summary_loop st sel = Inr recs \<Longrightarrow> map league_name recs = filter (loaded st) sel"
proof (induction sel arbitrary: recs)
  case Nil
  then show ?case by simp
next
  case (Cons league rest)
  show ?case
  proof (cases "dict_get st (key_name league)")
    case None
    then show ?thesis using Cons by (simp add: loaded_iff)
  next
    case (Some df)
    with Cons.prems obtain r rs where r: "summarise_league league df = Inr r"
      and rest: "summary_loop st rest = Inr rs" and recs: "recs = r # rs"
      by (auto simp: bind_err_def split: sum.splits)
    from Cons.IH[OF rest] summarise_league_name[OF r] Some recs
    show ?thesis by (simp add: loaded_iff)
  qed
qed

lemma premier_league_store:
  "store (load_data (files_with finals) [] [''Premier League'']) =
     [(''Premier League_df'',
       \<lparr>columns = ''league_name'' # ''season'' # dict_keys strategy_colors,
        rows = [Str ''Premier League'' # Str ''2023-2024'' # map Num [1, 2, 3, 4, 5, 6, 7],
                Str ''Premier League'' # Str ''2023-2024'' # map Num finals]\<rparr>)]"
  by (simp add: load_data_one[OF load_premier_league] key_name_def)

lemma premier_league_plot:
  "\<exists>ch. plot_loop (store (load_data (files_with [10, - 5, 20, 0, 15, - 20, 5]) [] [''Premier League'']))
          [''Championship'', ''Premier League''] = ([ch], None)"
  by (simp add: premier_league_store key_name_def dict_get_def plot_league_def py_index_def
      row_cell_def numeric_column_def get_column_def plotted_cell_def
      dict_item_def dict_keys_def strategy_colors_def label_dict_def bind_err_def Let_def)

lemma premier_league_summary:
  "\<exists>r. summary_loop (store (load_data (files_with [10, - 5, 20, 0, 15, - 20, 5]) [] [''Premier League'']))
          [''Championship'', ''Premier League''] = Inr [r]"
  by (simp add: premier_league_store key_name_def dict_get_def summarise_league_def
      final_values_def final_value_def total_name_def py_max_def py_min_def py_gt_def
      py_index_def row_cell_def get_column_def
      dict_item_def dict_keys_def strategy_colors_def bind_err_def)

lemma summary_loop_none_loaded:
  "summary_loop st (filter (\<lambda>league. \<not> loaded st league) sel) = Inr []"
  by (induction sel) (auto simp: loaded_iff)

lemma render_summary_empty: "render_summary [] = Inl (KeyError ''best_return_column'')"
  by (simp add: render_summary_def summary_frame_def get_column_def bind_err_def)

lemma league_two_view:
  "\<exists>v. view_best_worst [(key_name ''League Two'', two_fixtures [0, 0, 0, 0, 0, - 3, 5])]
          [''League Two''] = Inr v
       \<and> best_bars v = [(Str ''League Two'', Num 5, ''grey'')]
       \<and> worst_bars v = [(Str ''League Two'', Num (- 3), ''brown'')]"
  by (simp add: view_best_worst_def dict_get_def summarise_random_best bind_err_def
      render_summary_def summary_frame_def get_column_def row_cell_def cell_color_def
      currency_def bar_color_def strategy_colors_def Let_def)

section \<open>Claims about the loader\<close>

text \<open>
  C3.  The season is the second-to-last and the last hyphen-separated piece of the file
  name, joined by a hyphen, the last one without the suffix \<open>_financial_returns.csv\<close>:
  a name of the shape \<open>pre-a-b_financial_returns.csv\<close>, where \<open>a\<close> and \<open>b\<close> hold no
  hyphen and \<open>b\<close> no underscore, gives \<open>a-b\<close>.  The Premier League file gives
  \<open>2023-2024\<close>, and so does each of the nine configured files.
\<close>

theorem season_of_filename:
  "(\<forall>pre a b. CHR ''-'' \<notin> set a \<longrightarrow> CHR ''-'' \<notin> set b \<longrightarrow> CHR ''_'' \<notin> set b \<longrightarrow>
       derive_season (pre @ ''-'' @ a @ ''-'' @ b @ ''_financial_returns.csv'') = Inr (a @ ''-'' @ b))
   \<and> derive_season ''england_premier-league-2023-2024_financial_returns.csv'' = Inr ''2023-2024''
   \<and> length league_files = 9
   \<and> list_all (\<lambda>(league, file_path). derive_season file_path = Inr ''2023-2024'') league_files"
proof (intro conjI allI impI)
  fix pre a b :: string
  assume "CHR ''-'' \<notin> set a" "CHR ''-'' \<notin> set b" "CHR ''_'' \<notin> set b"
  then show "derive_season (pre @ ''-'' @ a @ ''-'' @ b @ ''_financial_returns.csv'') = Inr (a @ ''-'' @ b)"
    by (rule derive_season_shape)
next
  show "derive_season ''england_premier-league-2023-2024_financial_returns.csv'' = Inr ''2023-2024''"
    by (simp add: derive_season_def py_index_def bind_err_def)
next
  show "length league_files = 9"
    by (simp add: league_files_def)
next
  show "list_all (\<lambda>(league, file_path). derive_season file_path = Inr ''2023-2024'') league_files"
    by (simp add: league_files_def derive_season_def py_index_def bind_err_def)
qed

theorem season_of_filename_witness:
  "CHR ''-'' \<notin> set ''2023'' \<and> CHR ''-'' \<notin> set ''2024'' \<and> CHR ''_'' \<notin> set ''2024''
   \<and> derive_season (''italy_serie-a'' @ ''-'' @ ''2023'' @ ''-'' @ ''2024'' @ ''_financial_returns.csv'')
       = Inr (''2023'' @ ''-'' @ ''2024'')"
proof -
  have h1: "CHR ''-'' \<notin> set ''2023''" by simp
  have h2: "CHR ''-'' \<notin> set ''2024''" by simp
  have h3: "CHR ''_'' \<notin> set ''2024''" by simp
  have "derive_season (''italy_serie-a'' @ ''-'' @ ''2023'' @ ''-'' @ ''2024'' @ ''_financial_returns.csv'')
          = Inr (''2023'' @ ''-'' @ ''2024'')"
    by (rule season_of_filename[THEN conjunct1, rule_format, OF h1 h2 h3])
  with h1 h2 h3 show ?thesis by blast
qed

text \<open>
  C5.  Load Data with no league selected shows the warning, raises nothing and returns
  the session store as it was.
\<close>

theorem load_nothing_selected:
  "load_data fs st [] =
     \<lparr>store = st, messages = [Warning ''Please select at least one league.''], raised = None\<rparr>"
  by (simp add: load_data_def)

text \<open>
  C4.  The store holds at most one frame per league.  After any sequence of Load Data
  presses in a session (the store is empty at its start) the keys of the store are
  distinct, so no league has two entries, and distinct leagues have distinct keys.  Loading
  a league that is already loaded keeps the keys of the store as they are and puts the
  newly read frame under the league's key.
\<close>

theorem one_dataset_per_league:
  "distinct (dict_keys (load_many [] presses))
   \<and> length (filter (\<lambda>(k, df). k = key_name league) (load_many [] presses)) \<le> 1
   \<and> inj key_name
   \<and> (load_league fs1 league = Inr df1 \<longrightarrow> load_league fs2 league = Inr df2 \<longrightarrow>
        dict_keys (store (load_data fs2 (store (load_data fs1 st [league])) [league]))
          = dict_keys (store (load_data fs1 st [league]))
        \<and> dict_get (store (load_data fs2 (store (load_data fs1 st [league])) [league]))
            (key_name league) = Some df2)"
proof (intro conjI impI)
  have d: "distinct (dict_keys ([] :: session_state))" by (simp add: dict_keys_def)
  show dist: "distinct (dict_keys (load_many [] presses))"
    by (rule load_many_distinct[OF d])
  show "length (filter (\<lambda>(k, df). k = key_name league) (load_many [] presses)) \<le> 1"
    using dist by (intro distinct_keys_one_entry) (simp add: dict_keys_def)
  show "inj key_name" by (rule inj_key_name)
next
  assume l1: "load_league fs1 league = Inr df1" and l2: "load_league fs2 league = Inr df2"
  let ?st1 = "store (load_data fs1 st [league])"
  have s1: "?st1 = dict_set st (key_name league) df1" by (rule load_data_one[OF l1])
  have s2: "store (load_data fs2 ?st1 [league]) = dict_set ?st1 (key_name league) df2"
    by (rule load_data_one[OF l2])
  have "key_name league \<in> set (map fst ?st1)" unfolding s1 by (rule dict_set_has_key)
  then show "dict_keys (store (load_data fs2 ?st1 [league])) = dict_keys ?st1"
    unfolding s2 by (simp add: dict_keys_def dict_set_keys_present)
  show "dict_get (store (load_data fs2 ?st1 [league])) (key_name league) = Some df2"
    unfolding s2 by (simp add: dict_get_def dict_set_get)
qed

theorem one_dataset_per_league_witness:
  "\<exists>df1 df2.
     load_league (files_with [1, 2, 3, 4, 5, 6, 7]) ''Premier League'' = Inr df1
     \<and> load_league (files_with [7, 6, 5, 4, 3, 2, 1]) ''Premier League'' = Inr df2
     \<and> dict_keys (store (load_data (files_with [7, 6, 5, 4, 3, 2, 1])
           (store (load_data (files_with [1, 2, 3, 4, 5, 6, 7]) [] [''Premier League'']))
           [''Premier League'']))
        = dict_keys (store (load_data (files_with [1, 2, 3, 4, 5, 6, 7]) [] [''Premier League'']))
     \<and> dict_get (store (load_data (files_with [7, 6, 5, 4, 3, 2, 1])
           (store (load_data (files_with [1, 2, 3, 4, 5, 6, 7]) [] [''Premier League'']))
           [''Premier League''])) (key_name ''Premier League'') = Some df2"
  using one_dataset_per_league[THEN conjunct2, THEN conjunct2, THEN conjunct2, rule_format,
      OF load_premier_league load_premier_league]
    load_premier_league
  by blast

section \<open>Claims about the summary\<close>

text \<open>
  C7.  The bar of a league is meant to carry the colour of the strategy that won.  The
  colour is looked up under the winning column with \<open>_total\<close> replaced by
  \<open>_running_total\<close>; for six strategies that is the key of \<open>strategy_colors\<close>, for the
  random pick it is \<open>random_choice_1_running_total\<close>, which is no key (the key ends in
  \<open>_running_balance\<close>), and the bar is grey although the colour map says magenta.  The
  summary of a league whose random pick has the largest final value shows it.
\<close>

theorem random_pick_bar_is_grey:
  "map (bar_color \<circ> total_name) (dict_keys strategy_colors)
     = [''blue'', ''orange'', ''green'', ''purple'', ''red'', ''brown'', ''grey'']
   \<and> bar_color (total_name ''random_choice_1_running_balance'') = ''grey''
   \<and> dict_get strategy_colors ''random_choice_1_running_balance'' = Some ''magenta''
   \<and> (\<exists>v. view_best_worst [(key_name ''League Two'', two_fixtures [0, 0, 0, 0, 0, - 3, 5])]
              [''League Two''] = Inr v
          \<and> best_bars v = [(Str ''League Two'', Num 5, ''grey'')])"
proof (intro conjI)
  show "map (bar_color \<circ> total_name) (dict_keys strategy_colors)
     = [''blue'', ''orange'', ''green'', ''purple'', ''red'', ''brown'', ''grey'']"
    by (simp add: total_name_def dict_keys_def strategy_colors_def bar_color_def dict_get_def)
  show "bar_color (total_name ''random_choice_1_running_balance'') = ''grey''"
    by (simp add: total_name_def strategy_colors_def bar_color_def dict_get_def)
  show "dict_get strategy_colors ''random_choice_1_running_balance'' = Some ''magenta''"
    by (simp add: strategy_colors_def dict_get_def)
  show "\<exists>v. view_best_worst [(key_name ''League Two'', two_fixtures [0, 0, 0, 0, 0, - 3, 5])]
              [''League Two''] = Inr v
          \<and> best_bars v = [(Str ''League Two'', Num 5, ''grey'')]"
    using league_two_view by blast
qed

text \<open>
  C8.  With no selected league in the store the list of records is empty, the frame built
  from it has no column, and the read of \<open>best_return_column\<close> on line 160 raises
  \<open>KeyError\<close>: no summary is displayed.  This holds for the empty store and for every
  store and every selection made of leagues that are not loaded.
\<close>

theorem empty_summary_raises:
  "view_best_worst [] [] = Inl (KeyError ''best_return_column'')
   \<and> view_best_worst [] [''Premier League''] = Inl (KeyError ''best_return_column'')
   \<and> view_best_worst st (filter (\<lambda>league. \<not> loaded st league) sel)
       = Inl (KeyError ''best_return_column'')"
proof (intro conjI)
  show "view_best_worst [] [] = Inl (KeyError ''best_return_column'')"
    by (simp add: view_best_worst_def bind_err_def render_summary_empty)
  show "view_best_worst [] [''Premier League''] = Inl (KeyError ''best_return_column'')"
    by (simp add: view_best_worst_def bind_err_def render_summary_empty dict_get_def)
  show "view_best_worst st (filter (\<lambda>league. \<not> loaded st league) sel)
       = Inl (KeyError ''best_return_column'')"
    by (simp add: view_best_worst_def bind_err_def render_summary_empty summary_loop_none_loaded)
qed

text \<open>
  C1.  For a loaded frame with at least one row whose last row holds numbers \<open>vs\<close> in the
  seven strategy columns (no empty cell, so no not-a-number value), the summary of the
  league exists; its best return is the maximum and its worst return the minimum of the
  seven last-row values, each attributed to a column that holds it.  For the last-row
  values 10, -5, 20, 0, 15, -20, 5 the best return is 20 from the third column and the
  worst is -20 from the sixth.
\<close>

theorem best_worst_of_last_row:
  assumes rect: "rectangular df" and ne: "rows df \<noteq> []" and len: "length vs = 7"
    and cols: "\<forall>i<7. \<exists>j. index_of (columns df) (dict_keys strategy_colors ! i) = Some j
                 \<and> last (rows df) ! j = Num (vs ! i)"
  shows "\<exists>r. summarise_league league df = Inr r \<and> league_name r = league
           \<and> best_return r = Num (Max (set vs)) \<and> worst_return r = Num (Min (set vs))
           \<and> (\<exists>i<7. best_return_column r = total_name (dict_keys strategy_colors ! i)
                    \<and> Num (vs ! i) = best_return r)
           \<and> (\<exists>i<7. worst_return_column r = total_name (dict_keys strategy_colors ! i)
                    \<and> Num (vs ! i) = worst_return r)
           \<and> (vs = [10, - 5, 20, 0, 15, - 20, 5] \<longrightarrow>
                best_return r = Num 20
                \<and> best_return_column r = total_name (dict_keys strategy_colors ! 2)
                \<and> worst_return r = Num (- 20)
                \<and> worst_return_column r = total_name (dict_keys strategy_colors ! 5))"
proof -
  let ?ks = "dict_keys column_name_map"
  have names: "?ks ! i = total_name (dict_keys strategy_colors ! i)" if "i < 7" for i
    using that strategy_keys_length by (simp add: total_names[symmetric])
  from summarise_league_zip[OF final_values_of_last_row[OF rect ne len cols] len, of league]
  obtain ib iw where ib: "ib < 7" and iw: "iw < 7"
    and r: "summarise_league league df =
             Inr \<lparr>league_name = league,
                  best_return = Num (vs ! ib), best_return_column = ?ks ! ib,
                  worst_return = Num (vs ! iw), worst_return_column = ?ks ! iw\<rparr>"
    and mxa: "\<forall>j<7. vs ! j \<le> vs ! ib" and mxb: "\<forall>j<ib. vs ! j < vs ! ib"
    and mna: "\<forall>j<7. vs ! iw \<le> vs ! j" and mnb: "\<forall>j<iw. vs ! iw < vs ! j"
    by blast
  have mx: "Max (set vs) = vs ! ib" using Max_at_index[of ib vs] ib mxa len by simp
  have mn: "Min (set vs) = vs ! iw" using Min_at_index[of iw vs] iw mna len by simp
  have ex: "ib = 2 \<and> iw = 5" if v: "vs = [10, - 5, 20, 0, 15, - 20, 5]"
  proof
    have "vs ! 2 \<le> vs ! ib" using mxa by simp
    then show "ib = 2" using seven_cases[OF ib] unfolding v by auto
    have "vs ! iw \<le> vs ! 5" using mna by simp
    then show "iw = 5" using seven_cases[OF iw] unfolding v by auto
  qed
  let ?r = "\<lparr>league_name = league,
                  best_return = Num (vs ! ib), best_return_column = ?ks ! ib,
                  worst_return = Num (vs ! iw), worst_return_column = ?ks ! iw\<rparr>"
  have a: "best_return ?r = Num (Max (set vs))" "worst_return ?r = Num (Min (set vs))"
    "league_name ?r = league"
    by (simp_all add: mx mn)
  have b: "\<exists>i<7. best_return_column ?r = total_name (dict_keys strategy_colors ! i)
             \<and> Num (vs ! i) = best_return ?r"
    using ib names[OF ib] by auto
  have c: "\<exists>i<7. worst_return_column ?r = total_name (dict_keys strategy_colors ! i)
             \<and> Num (vs ! i) = worst_return ?r"
    using iw names[OF iw] by auto
  have d: "vs = [10, - 5, 20, 0, 15, - 20, 5] \<longrightarrow>
                best_return ?r = Num 20
                \<and> best_return_column ?r = total_name (dict_keys strategy_colors ! 2)
                \<and> worst_return ?r = Num (- 20)
                \<and> worst_return_column ?r = total_name (dict_keys strategy_colors ! 5)"
  proof
    assume v: "vs = [10, - 5, 20, 0, 15, - 20, 5]"
    from ex[OF v] have i2: "ib = 2" and i5: "iw = 5" by simp_all
    have n2: "?ks ! 2 = total_name (dict_keys strategy_colors ! 2)" by (rule names) simp
    have n5: "?ks ! 5 = total_name (dict_keys strategy_colors ! 5)" by (rule names) simp
    show "best_return ?r = Num 20
                \<and> best_return_column ?r = total_name (dict_keys strategy_colors ! 2)
                \<and> worst_return ?r = Num (- 20)
                \<and> worst_return_column ?r = total_name (dict_keys strategy_colors ! 5)"
      using n2 n5 by (simp add: i2 i5 v)
  qed
  show ?thesis
    using r a b c d by blast
qed

theorem best_worst_of_last_row_witness:
  "\<exists>r. summarise_league ''Premier League'' (two_fixtures [10, - 5, 20, 0, 15, - 20, 5]) = Inr r
      \<and> best_return r = Num 20 \<and> best_return_column r = ''away_returns_total''
      \<and> worst_return r = Num (- 20) \<and> worst_return_column r = ''third_choice_returns_total''"
proof -
  let ?vs = "[10, - 5, 20, 0, 15, - 20, 5] :: real list"
  have len: "length ?vs = 7" by simp
  have n2: "total_name (dict_keys strategy_colors ! 2) = ''away_returns_total''"
    by (simp add: total_name_def dict_keys_def strategy_colors_def)
  have n5: "total_name (dict_keys strategy_colors ! 5) = ''third_choice_returns_total''"
    by (simp add: total_name_def dict_keys_def strategy_colors_def)
  from best_worst_of_last_row[OF two_fixtures_ok(1)[OF len] two_fixtures_ok(2) len
      two_fixtures_ok(3)[OF len], of "''Premier League''"]
  show ?thesis using n2 n5 by auto
qed

text \<open>
  The restriction to numbers is needed.  A file with an empty cell in the
  last row of the first strategy column gives a frame with not-a-number there; for the
  last row nan, 5, 1, 2, 3, 4, 0 the seven final values are those, and the record has
  not-a-number from the first column both as best and as worst return, where the maximum
  is 5 (second column) and the minimum 0 (seventh column).
\<close>

theorem nan_final_value_breaks_best_worst:
  "final_values (fixtures_ending [NaN, Num 5, Num 1, Num 2, Num 3, Num 4, Num 0]) =
     Inr [(''home_returns_total'', NaN), (''draw_returns_total'', Num 5),
          (''away_returns_total'', Num 1), (''first_choice_returns_total'', Num 2),
          (''second_choice_returns_total'', Num 3), (''third_choice_returns_total'', Num 4),
          (''random_choice_1_total'', Num 0)]
   \<and> summarise_league ''Premier League''
        (fixtures_ending [NaN, Num 5, Num 1, Num 2, Num 3, Num 4, Num 0]) =
       Inr \<lparr>league_name = ''Premier League'',
            best_return = NaN, best_return_column = ''home_returns_total'',
            worst_return = NaN, worst_return_column = ''home_returns_total''\<rparr>"
  by (simp add: summarise_nan_first final_values_fixtures_ending dict_keys_def column_name_map_def)

text \<open>
  C2.  For a last row of numbers: when several of the seven final values equal the
  maximum, the best column is the earliest of them in the order of \<open>strategy_colors\<close>:
  the best column sits at a position of \<open>final_values\<close> that holds the maximum, and no
  earlier position holds it.  The same holds for the worst column and the minimum.
\<close>

theorem first_column_wins_ties:
  assumes fv: "final_values df = Inr fv" and nums: "map snd fv = map Num vs"
    and r: "summarise_league league df = Inr r"
  shows "length fv = 7 \<and>
         (\<exists>ib<7. best_return_column r = total_name (dict_keys strategy_colors ! ib)
              \<and> fv ! ib = (best_return_column r, best_return r)
              \<and> best_return r = Num (Max (set vs))
              \<and> (\<forall>j<7. snd (fv ! j) = best_return r \<longrightarrow> ib \<le> j))
         \<and> (\<exists>iw<7. worst_return_column r = total_name (dict_keys strategy_colors ! iw)
              \<and> fv ! iw = (worst_return_column r, worst_return r)
              \<and> worst_return r = Num (Min (set vs))
              \<and> (\<forall>j<7. snd (fv ! j) = worst_return r \<longrightarrow> iw \<le> j))"
proof -
  let ?ks = "dict_keys column_name_map"
  from summarise_league_numbers[OF r fv nums] obtain ib iw where len: "length vs = 7"
    and ib: "ib < 7" and iw: "iw < 7"
    and fvz: "fv = zip ?ks (map Num vs)"
    and rr: "r = \<lparr>league_name = league,
                    best_return = Num (vs ! ib), best_return_column = ?ks ! ib,
                    worst_return = Num (vs ! iw), worst_return_column = ?ks ! iw\<rparr>"
    and mxa: "\<forall>j<7. vs ! j \<le> vs ! ib" and mxb: "\<forall>j<ib. vs ! j < vs ! ib"
    and mna: "\<forall>j<7. vs ! iw \<le> vs ! j" and mnb: "\<forall>j<iw. vs ! iw < vs ! j"
    by blast
  have lk: "length ?ks = 7" by (rule column_name_keys(2))
  have lfv: "length fv = 7" by (simp add: fvz lk len)
  have nth: "fv ! j = (?ks ! j, Num (vs ! j))" if "j < 7" for j
    using that by (simp add: fvz lk len)
  have names: "?ks ! i = total_name (dict_keys strategy_colors ! i)" if "i < 7" for i
    using that strategy_keys_length by (simp add: total_names[symmetric])
  have mx: "Max (set vs) = vs ! ib" using Max_at_index[of ib vs] ib mxa len by simp
  have mn: "Min (set vs) = vs ! iw" using Min_at_index[of iw vs] iw mna len by simp
  have firstb: "\<forall>j<7. snd (fv ! j) = best_return r \<longrightarrow> ib \<le> j"
  proof (intro allI impI)
    fix j assume j: "j < 7" and e: "snd (fv ! j) = best_return r"
    show "ib \<le> j"
    proof (rule ccontr)
      assume "\<not> ib \<le> j"
      then have "vs ! j < vs ! ib" using mxb by simp
      with e nth[OF j] rr show False by simp
    qed
  qed
  have firstw: "\<forall>j<7. snd (fv ! j) = worst_return r \<longrightarrow> iw \<le> j"
  proof (intro allI impI)
    fix j assume j: "j < 7" and e: "snd (fv ! j) = worst_return r"
    show "iw \<le> j"
    proof (rule ccontr)
      assume "\<not> iw \<le> j"
      then have "vs ! iw < vs ! j" using mnb by simp
      with e nth[OF j] rr show False by simp
    qed
  qed
  have b: "best_return_column r = total_name (dict_keys strategy_colors ! ib)
              \<and> fv ! ib = (best_return_column r, best_return r)
              \<and> best_return r = Num (Max (set vs))"
    using names[OF ib] nth[OF ib] by (simp add: rr mx)
  have w: "worst_return_column r = total_name (dict_keys strategy_colors ! iw)
              \<and> fv ! iw = (worst_return_column r, worst_return r)
              \<and> worst_return r = Num (Min (set vs))"
    using names[OF iw] nth[OF iw] by (simp add: rr mn)
  show ?thesis using lfv ib iw b w firstb firstw by blast
qed

theorem first_column_wins_ties_witness:
  "final_values (two_fixtures [5, 5, 1, 5, 1, 1, 1])
     = Inr (zip (dict_keys column_name_map) (map Num [5, 5, 1, 5, 1, 1, 1]))
   \<and> map snd (zip (dict_keys column_name_map) (map Num [5, 5, 1, 5, 1, 1, 1]))
       = map Num [5, 5, 1, 5, 1, 1, 1]
   \<and> summarise_league ''Serie A (Italy)'' (two_fixtures [5, 5, 1, 5, 1, 1, 1]) =
       Inr \<lparr>league_name = ''Serie A (Italy)'',
            best_return = Num 5, best_return_column = ''home_returns_total'',
            worst_return = Num 1, worst_return_column = ''away_returns_total''\<rparr>
   \<and> length (zip (dict_keys column_name_map) (map Num [5, 5, 1, 5, 1, 1, 1 :: real])) = 7"
proof -
  have fv: "final_values (two_fixtures [5, 5, 1, 5, 1, 1, 1])
              = Inr (zip (dict_keys column_name_map) (map Num [5, 5, 1, 5, 1, 1, 1]))"
    by (rule final_values_two_fixtures) simp
  have nums: "map snd (zip (dict_keys column_name_map) (map Num [5, 5, 1, 5, 1, 1, 1 :: real]))
       = map Num [5, 5, 1, 5, 1, 1, 1]"
    by (simp add: dict_keys_def column_name_map_def)
  have "length (zip (dict_keys column_name_map) (map Num [5, 5, 1, 5, 1, 1, 1 :: real])) = 7"
    by (rule first_column_wins_ties[OF fv nums summarise_tied, THEN conjunct1])
  with fv nums summarise_tied show ?thesis by blast
qed

text \<open>
  With a not-a-number value the tie rule does not hold.  For the last row nan, 7, 7, 1, 1, 1, 1
  the second and third column share the maximum 7 and the fourth is the earliest with the
  minimum 1, but the first column is both the best and the worst column.
\<close>

theorem nan_final_value_breaks_tie_rule:
  "final_values (fixtures_ending [NaN, Num 7, Num 7, Num 1, Num 1, Num 1, Num 1]) =
     Inr [(''home_returns_total'', NaN), (''draw_returns_total'', Num 7),
          (''away_returns_total'', Num 7), (''first_choice_returns_total'', Num 1),
          (''second_choice_returns_total'', Num 1), (''third_choice_returns_total'', Num 1),
          (''random_choice_1_total'', Num 1)]
   \<and> summarise_league ''Serie A (Italy)''
        (fixtures_ending [NaN, Num 7, Num 7, Num 1, Num 1, Num 1, Num 1]) =
       Inr \<lparr>league_name = ''Serie A (Italy)'',
            best_return = NaN, best_return_column = ''home_returns_total'',
            worst_return = NaN, worst_return_column = ''home_returns_total''\<rparr>"
  by (simp add: summarise_nan_first final_values_fixtures_ending dict_keys_def column_name_map_def)

text \<open>
  C9.  In every record the summary emits whose best return is not the not-a-number
  value, Python's \<open>best_return >= worst_return\<close> is \<open>True\<close>; when both are numbers, the
  worst return is at most the best return.
\<close>

theorem worst_le_best:
  assumes r: "summarise_league league df = Inr r" and nn: "best_return r \<noteq> NaN"
  shows "py_ge (best_return r) (worst_return r) = Inr True
         \<and> (\<forall>b w. best_return r = Num b \<longrightarrow> worst_return r = Num w \<longrightarrow> w \<le> b)"
proof -
  from summarise_league_parts[OF r] obtain fv where fv: "final_values df = Inr fv"
    and mx: "py_max (dict_keys fv) (dict_get fv) = Inr (best_return_column r)"
    and mn: "py_min (dict_keys fv) (dict_get fv) = Inr (worst_return_column r)"
    and gb: "dict_get fv (best_return_column r) = Some (best_return r)"
    and gw: "dict_get fv (worst_return_column r) = Some (worst_return r)"
    by blast
  from mx obtain k0 rest where ks: "dict_keys fv = k0 # rest"
    by (cases "dict_keys fv") (auto simp: py_max_def)
  have mx': "max_loop (dict_get fv) k0 rest = Inr (best_return_column r)"
    using mx by (simp add: py_max_def ks)
  have mn': "min_loop (dict_get fv) k0 rest = Inr (worst_return_column r)"
    using mn by (simp add: py_min_def ks)
  have "k0 \<in> fst ` set fv" using ks by (metis dict_keys_def list.set_intros(1) set_map)
  then obtain a where k0: "dict_get fv k0 = Some a"
    by (cases "map_of fv k0") (auto simp: dict_get_def map_of_eq_None_iff)
  have ge: "py_ge (best_return r) (worst_return r) = Inr True"
    by (rule extremes_ordered[OF mx' mn' k0 gb gw nn])
  then have "\<forall>b w. best_return r = Num b \<longrightarrow> worst_return r = Num w \<longrightarrow> w \<le> b"
    by auto
  with ge show ?thesis by blast
qed

theorem worst_le_best_witness:
  "summarise_league ''Championship'' (two_fixtures [3, - 4, 0, 12, 7, - 9, 2]) =
     Inr \<lparr>league_name = ''Championship'',
          best_return = Num 12, best_return_column = ''first_choice_returns_total'',
          worst_return = Num (- 9), worst_return_column = ''third_choice_returns_total''\<rparr>
   \<and> Num 12 \<noteq> NaN
   \<and> py_ge (Num 12) (Num (- 9)) = Inr True"
proof -
  let ?r = "\<lparr>league_name = ''Championship'',
          best_return = Num 12, best_return_column = ''first_choice_returns_total'',
          worst_return = Num (- 9), worst_return_column = ''third_choice_returns_total''\<rparr>"
  have nn: "best_return ?r \<noteq> NaN" by simp
  from worst_le_best[OF summarise_spread nn]
  have "py_ge (best_return ?r) (worst_return ?r) = Inr True" by (rule conjunct1)
  then show ?thesis using summarise_spread by simp
qed

text \<open>
  A record whose best and worst return are not-a-number is emitted for the last row
  nan, 5, 1, 2, 3, 4, 0, and there \<open>best_return >= worst_return\<close> is \<open>False\<close>.
\<close>

theorem nan_record_not_ordered:
  "summarise_league ''Championship''
     (fixtures_ending [NaN, Num 5, Num 1, Num 2, Num 3, Num 4, Num 0]) =
     Inr \<lparr>league_name = ''Championship'',
          best_return = NaN, best_return_column = ''home_returns_total'',
          worst_return = NaN, worst_return_column = ''home_returns_total''\<rparr>
   \<and> py_ge (best_return \<lparr>league_name = ''Championship'',
          best_return = NaN, best_return_column = ''home_returns_total'',
          worst_return = NaN, worst_return_column = ''home_returns_total''\<rparr>)
        (worst_return \<lparr>league_name = ''Championship'',
          best_return = NaN, best_return_column = ''home_returns_total'',
          worst_return = NaN, worst_return_column = ''home_returns_total''\<rparr>) = Inr False"
  by (simp add: summarise_nan_first)

text \<open>
  C10.  The renaming of the seven strategy columns to the keys of \<open>final_values\<close> is
  injective on them and its image is the key set of \<open>column_name_map\<close>.  So
  \<open>final_values\<close> has seven entries, under exactly those keys, and the best and the
  worst column of every record have a description.
\<close>

theorem total_names_cover_descriptions:
  "inj_on total_name (set (dict_keys strategy_colors))
   \<and> total_name ` set (dict_keys strategy_colors) = set (dict_keys column_name_map)
   \<and> (\<forall>df fv. final_values df = Inr fv \<longrightarrow>
         length fv = 7 \<and> dict_keys fv = dict_keys column_name_map)
   \<and> (\<forall>league df r. summarise_league league df = Inr r \<longrightarrow>
         (\<exists>d. description_of (Str (best_return_column r)) = Some d)
         \<and> (\<exists>d. description_of (Str (worst_return_column r)) = Some d))"
proof (intro conjI allI impI)
  show "inj_on total_name (set (dict_keys strategy_colors))"
    using distinct_total_names by (simp add: distinct_map)
  show "total_name ` set (dict_keys strategy_colors) = set (dict_keys column_name_map)"
    using total_names by (metis set_map)
next
  fix df fv assume fv: "final_values df = Inr fv"
  from final_values_shape[OF fv] obtain vs where len: "length vs = 7"
    and z: "fv = zip (dict_keys column_name_map) vs" by blast
  show "length fv = 7" using len column_name_keys(2) by (simp add: z)
  show "dict_keys fv = dict_keys column_name_map"
    using len column_name_keys(2) by (simp add: z dict_keys_def[of "zip _ _"])
next
  fix league df r assume r: "summarise_league league df = Inr r"
  from summarise_league_parts[OF r] obtain fv where fv: "final_values df = Inr fv"
    and mx: "py_max (dict_keys fv) (dict_get fv) = Inr (best_return_column r)"
    and mn: "py_min (dict_keys fv) (dict_get fv) = Inr (worst_return_column r)"
    by blast
  from final_values_shape[OF fv] obtain vs where len: "length vs = 7"
    and z: "fv = zip (dict_keys column_name_map) vs" by blast
  have keys: "dict_keys fv = dict_keys column_name_map"
    using len column_name_keys(2) by (simp add: z dict_keys_def[of "zip _ _"])
  have "best_return_column r \<in> set (dict_keys column_name_map)"
    using py_max_mem[OF mx] keys by simp
  from column_names_in_map[OF this]
  show "\<exists>d. description_of (Str (best_return_column r)) = Some d"
    by (simp add: description_of_def)
  have "worst_return_column r \<in> set (dict_keys column_name_map)"
    using py_min_mem[OF mn] keys by simp
  from column_names_in_map[OF this]
  show "\<exists>d. description_of (Str (worst_return_column r)) = Some d"
    by (simp add: description_of_def)
qed

theorem total_names_cover_descriptions_witness:
  "final_values (two_fixtures [0, 0, 0, 0, 0, - 3, 5])
     = Inr (zip (dict_keys column_name_map) (map Num [0, 0, 0, 0, 0, - 3, 5]))
   \<and> length (zip (dict_keys column_name_map) (map Num [0, 0, 0, 0, 0, - 3, 5 :: real])) = 7
   \<and> (\<exists>d. description_of (Str ''random_choice_1_total'') = Some d)
   \<and> (\<exists>d. description_of (Str ''third_choice_returns_total'') = Some d)"
proof -
  have fv: "final_values (two_fixtures [0, 0, 0, 0, 0, - 3, 5])
              = Inr (zip (dict_keys column_name_map) (map Num [0, 0, 0, 0, 0, - 3, 5]))"
    by (rule final_values_two_fixtures) simp
  note t = total_names_cover_descriptions
  have l: "length (zip (dict_keys column_name_map) (map Num [0, 0, 0, 0, 0, - 3, 5 :: real])) = 7"
    using t[THEN conjunct2, THEN conjunct2, THEN conjunct1, rule_format, OF fv] by (rule conjunct1)
  have d: "(\<exists>d. description_of (Str (best_return_column \<lparr>league_name = ''League Two'',
          best_return = Num 5, best_return_column = ''random_choice_1_total'',
          worst_return = Num (- 3), worst_return_column = ''third_choice_returns_total''\<rparr>)) = Some d)
    \<and> (\<exists>d. description_of (Str (worst_return_column \<lparr>league_name = ''League Two'',
          best_return = Num 5, best_return_column = ''random_choice_1_total'',
          worst_return = Num (- 3), worst_return_column = ''third_choice_returns_total''\<rparr>)) = Some d)"
    by (rule t[THEN conjunct2, THEN conjunct2, THEN conjunct2, rule_format, OF summarise_random_best])
  from fv l d show ?thesis by simp
qed

section \<open>Claims about both views\<close>

text \<open>
  C6.  In the plot action and in the summary action a selected league without a frame in
  the store is skipped: each action gives what it gives for the selection without the
  leagues that are not loaded, so such a league adds no chart, no record and no exception;
  and when an action goes through, its charts (its records) are those of the loaded
  leagues of the selection, in order.
\<close>

theorem unloaded_leagues_skipped:
  "plot_loop st sel = plot_loop st (filter (loaded st) sel)
   \<and> summary_loop st sel = summary_loop st (filter (loaded st) sel)
   \<and> view_best_worst st sel = view_best_worst st (filter (loaded st) sel)
   \<and> (\<forall>chs. plot_loop st sel = (chs, None) \<longrightarrow> map chart_league chs = filter (loaded st) sel)
   \<and> (\<forall>recs. summary_loop st sel = Inr recs \<longrightarrow> map league_name recs = filter (loaded st) sel)"
proof (intro conjI allI impI)
  show "plot_loop st sel = plot_loop st (filter (loaded st) sel)" by (rule plot_loop_skip)
  show s: "summary_loop st sel = summary_loop st (filter (loaded st) sel)" by (rule summary_loop_skip)
  show "view_best_worst st sel = view_best_worst st (filter (loaded st) sel)"
    unfolding view_best_worst_def using s by simp
next
  fix chs assume "plot_loop st sel = (chs, None)"
  then show "map chart_league chs = filter (loaded st) sel" by (rule plot_loop_leagues)
next
  fix recs assume "summary_loop st sel = Inr recs"
  then show "map league_name recs = filter (loaded st) sel" by (rule summary_loop_leagues)
qed

theorem unloaded_leagues_skipped_witness:
  "\<exists>ch r.
     plot_loop (store (load_data (files_with [10, - 5, 20, 0, 15, - 20, 5]) [] [''Premier League'']))
       [''Championship'', ''Premier League''] = ([ch], None)
     \<and> chart_league ch = ''Premier League''
     \<and> summary_loop (store (load_data (files_with [10, - 5, 20, 0, 15, - 20, 5]) [] [''Premier League'']))
       [''Championship'', ''Premier League''] = Inr [r]
     \<and> league_name r = ''Premier League''"
proof -
  let ?st = "store (load_data (files_with [10, - 5, 20, 0, 15, - 20, 5]) [] [''Premier League''])"
  let ?sel = "[''Championship'', ''Premier League'']"
  have f: "filter (loaded ?st) ?sel = [''Premier League'']"
    by (simp add: premier_league_store loaded_def dict_keys_def key_name_def)
  from premier_league_plot obtain ch where ch: "plot_loop ?st ?sel = ([ch], None)" by blast
  from premier_league_summary obtain r where r: "summary_loop ?st ?sel = Inr [r]" by blast
  note t = unloaded_leagues_skipped[of ?st ?sel]
  have "map chart_league [ch] = filter (loaded ?st) ?sel"
    by (rule t[THEN conjunct2, THEN conjunct2, THEN conjunct2, THEN conjunct1, rule_format, OF ch])
  moreover have "map league_name [r] = filter (loaded ?st) ?sel"
    by (rule t[THEN conjunct2, THEN conjunct2, THEN conjunct2, THEN conjunct2, rule_format, OF r])
  ultimately show ?thesis using ch r f by auto
qed

end
